theory Spec2Isabelle
  imports Complex_Main "HOL-Library.AList" "HOL-Library.Sublist"
begin

section \<open>JSON values as the handlers see them\<close>

text \<open>
  The server (the Hono application whose source follows the client module in
  \<^verbatim>\<open>src/utils/api.tsx\<close>) receives JSON bodies, stores JSON values and answers with JSON.
  A JavaScript string is modelled as a \<^typ>\<open>string\<close> whose elements stand for its code
  units, a JSON number by its value. The JavaScript value
  \<^verbatim>\<open>undefined\<close> is not a JSON value: a variable that may hold it has type
  \<^typ>\<open>'a option\<close>, with \<^term>\<open>None\<close> for \<^verbatim>\<open>undefined\<close>.
\<close>

datatype json =
    JNull
  | JBool bool
  | JNum real
  | JStr string
  | JArr "json list"
  | JObj "(string \<times> json) list"

text \<open>JavaScript truthiness (\<^verbatim>\<open>!x\<close>, \<^verbatim>\<open>x || y\<close>, \<^verbatim>\<open>x && y\<close>).\<close>

fun truthy_json :: "json \<Rightarrow> bool" where
  "truthy_json JNull = False"
| "truthy_json (JBool b) = b"
| "truthy_json (JNum r) = (r \<noteq> 0)"
| "truthy_json (JStr s) = (s \<noteq> [])"
| "truthy_json (JArr xs) = True"
| "truthy_json (JObj kvs) = True"

fun truthy :: "json option \<Rightarrow> bool" where
  "truthy None = False"
| "truthy (Some v) = truthy_json v"

text \<open>\<^verbatim>\<open>x || d\<close> for a default \<open>d\<close> that is a JSON literal.\<close>

definition js_or :: "json option \<Rightarrow> json \<Rightarrow> json" where
  "js_or x d = (case x of None \<Rightarrow> d | Some v \<Rightarrow> if truthy_json v then v else d)"

text \<open>\<^verbatim>\<open>typeof x === 'object'\<close>: true of objects, arrays and \<^verbatim>\<open>null\<close>.\<close>

fun typeof_object :: "json \<Rightarrow> bool" where
  "typeof_object JNull = True"
| "typeof_object (JArr xs) = True"
| "typeof_object (JObj kvs) = True"
| "typeof_object v = False"

text \<open>Decimal numerals, the names of the index properties of arrays and strings.\<close>

definition digit_char :: "nat \<Rightarrow> char" where
  "digit_char d = ''0123456789'' ! d"

function show_nat :: "nat \<Rightarrow> string" where
  "show_nat n = (if n < 10 then [digit_char n] else show_nat (n div 10) @ [digit_char (n mod 10)])"
  by pat_completeness auto
termination
  by (relation "measure (\<lambda>n. n)") auto

text \<open>
  The own enumerable properties of a value, in the order an object spread
  \<^verbatim>\<open>{...v}\<close> copies them: the members of an object, the elements of an array and the
  one-unit strings of a string under their indices, nothing for the other values.
\<close>

fun own_props :: "json \<Rightarrow> (string \<times> json) list" where
  "own_props (JObj kvs) = kvs"
| "own_props (JArr xs) = zip (map show_nat [0..<length xs]) xs"
| "own_props (JStr s) = zip (map show_nat [0..<length s]) (map (\<lambda>c. JStr [c]) s)"
| "own_props v = []"

text \<open>
  Property access \<^verbatim>\<open>v.k\<close> for the names the handlers read (\<^verbatim>\<open>title\<close>,
  \<^verbatim>\<open>text\<close>, \<^verbatim>\<open>tags\<close>, \<^verbatim>\<open>deadline\<close>, \<^verbatim>\<open>newPassword\<close>,
  \<^verbatim>\<open>id\<close>): none of them is inherited from a prototype, so the result is the own
  property or \<^verbatim>\<open>undefined\<close>. The handlers guard every access to a value that may be
  \<^verbatim>\<open>null\<close>.
\<close>

definition js_prop :: "json \<Rightarrow> string \<Rightarrow> json option" where
  "js_prop v k = map_of (own_props v) k"

text \<open>\<^verbatim>\<open>v.length\<close>: strings and arrays have it built in.\<close>

definition js_length :: "json \<Rightarrow> json option" where
  "js_length v =
     (case v of
        JStr s \<Rightarrow> Some (JNum (real (length s)))
      | JArr xs \<Rightarrow> Some (JNum (real (length xs)))
      | _ \<Rightarrow> js_prop v ''length'')"

text \<open>
  A JavaScript object under construction: a property may hold \<^verbatim>\<open>undefined\<close>.
  \<open>obj_set\<close> is one member of an object literal written after a spread: it replaces the
  property where the spread already brought it and adds it at the end otherwise.
  \<open>to_json\<close> is what serialisation (\<^verbatim>\<open>c.json\<close>, the store's JSON column) keeps of the
  object: a property holding \<^verbatim>\<open>undefined\<close> is left out. An association list is read
  from the front, so an entry behind another one of the same name is no property of the
  object and is not written either.
\<close>

type_synonym jsobj = "(string \<times> json option) list"

definition spread :: "json \<Rightarrow> jsobj" where
  "spread v = map (\<lambda>(k, x). (k, Some x)) (own_props v)"

definition obj_set :: "string \<Rightarrow> json option \<Rightarrow> jsobj \<Rightarrow> jsobj" where
  "obj_set k x obj = AList.update k x obj"

function to_json_props :: "jsobj \<Rightarrow> (string \<times> json) list" where
  "to_json_props [] = []"
| "to_json_props ((k, x) # ps) =
     (case x of None \<Rightarrow> [] | Some v \<Rightarrow> [(k, v)]) @ to_json_props (AList.delete k ps)"
  by pat_completeness auto
termination
  by (relation "measure length") (auto simp: length_delete_le less_Suc_eq_le)

definition to_json :: "jsobj \<Rightarrow> json" where
  "to_json obj = JObj (to_json_props obj)"

section \<open>The key-value store\<close>

text \<open>
  Modelled from the spec: \<^verbatim>\<open>kv_store.tsx\<close> (imported as \<^verbatim>\<open>kv\<close>) is not among the
  sources. The spec describes it as a durable mapping from string key to JSON value,
  supporting get, set, delete and prefix-scan. The table is an association list read as
  a mapping (the first entry of a key is its row, \<open>AList.clearjunk\<close> removes the others);
  \<open>kv_get\<close> answers \<^verbatim>\<open>undefined\<close> for a key without row. Every call is recorded in
  \<open>log\<close>, so that a statement on which keys a handler touches can be made. A prefix
  scan returns the rows in the order of the table, a new key going to its end; the spec
  leaves the order open. The calls are taken to return: a store that failed would throw,
  and the handler's \<^verbatim>\<open>catch\<close> would answer 500.
\<close>

datatype kv_access =
    KvGet string
  | KvSet string
  | KvDel string
  | KvGetByPrefix string

record kv_state =
  table :: "(string \<times> json) list"
  log :: "kv_access list"

text \<open>Modelled from the spec: \<^verbatim>\<open>kv.get(key)\<close>, the value of the key or \<^verbatim>\<open>undefined\<close>.\<close>

definition kv_get :: "string \<Rightarrow> kv_state \<Rightarrow> json option \<times> kv_state" where
  "kv_get k s = (map_of (table s) k, s\<lparr>log := log s @ [KvGet k]\<rparr>)"

text \<open>Modelled from the spec: \<^verbatim>\<open>kv.set(key, value)\<close>, the row of the key is written or replaced.\<close>

definition kv_set :: "string \<Rightarrow> json \<Rightarrow> kv_state \<Rightarrow> kv_state" where
  "kv_set k v s = s\<lparr>table := AList.update k v (table s), log := log s @ [KvSet k]\<rparr>"

text \<open>Modelled from the spec: \<^verbatim>\<open>kv.del(key)\<close>, the row of the key is removed.\<close>

definition kv_del :: "string \<Rightarrow> kv_state \<Rightarrow> kv_state" where
  "kv_del k s = s\<lparr>table := AList.delete k (table s), log := log s @ [KvDel k]\<rparr>"

text \<open>Modelled from the spec: the rows whose key starts with the prefix, in the order of the table.\<close>

definition under_prefix :: "string \<Rightarrow> (string \<times> json) list \<Rightarrow> (string \<times> json) list" where
  "under_prefix p t = filter (\<lambda>kv. prefix p (fst kv)) (AList.clearjunk t)"

text \<open>Modelled from the spec: \<^verbatim>\<open>kv.getByPrefix(prefix)\<close>, the values of the rows whose key starts with the prefix.\<close>

definition kv_getByPrefix :: "string \<Rightarrow> kv_state \<Rightarrow> json list \<times> kv_state" where
  "kv_getByPrefix p s = (map snd (under_prefix p (table s)), s\<lparr>log := log s @ [KvGetByPrefix p]\<rparr>)"

fun access_key :: "kv_access \<Rightarrow> string" where
  "access_key (KvGet k) = k"
| "access_key (KvSet k) = k"
| "access_key (KvDel k) = k"
| "access_key (KvGetByPrefix p) = p"

text \<open>The accesses made between two states of the store.\<close>

definition new_accesses :: "kv_state \<Rightarrow> kv_state \<Rightarrow> kv_access list" where
  "new_accesses s s' = drop (length (log s)) (log s')"

section \<open>Requests, responses and the collaborators of the server\<close>

record request =
  authorization :: "string option"
  param_id :: string
  body :: "json option"

record response =
  status :: nat
  payload :: json

record user =
  user_id :: string

text \<open>The result \<^verbatim>\<open>{ data: { user }, error }\<close> of \<^verbatim>\<open>supabase.auth.getUser\<close>.\<close>

record auth_result =
  auth_user :: "user option"
  auth_error :: "string option"

text \<open>
  What the server takes from outside: the Auth Provider (\<^verbatim>\<open>getUser\<close>, and
  \<^verbatim>\<open>admin.updateUserById\<close>, which answers with an error message or none),
  \<^verbatim>\<open>crypto.randomUUID()\<close> and \<^verbatim>\<open>new Date().toISOString()\<close> as they answer during
  the request, and the numeric conversion JavaScript applies when a value that is not a
  number is compared with one (\<open>None\<close> for \<^verbatim>\<open>NaN\<close>). The calls to the provider are
  taken to return their result object.
\<close>

record env =
  getUser :: "string \<Rightarrow> auth_result"
  updateUserById :: "string \<Rightarrow> json \<Rightarrow> string option"
  randomUUID :: string
  toISOString :: string
  to_number :: "json \<Rightarrow> real option"

definition json_response :: "json \<Rightarrow> nat \<Rightarrow> response" where
  "json_response v code = \<lparr>status = code, payload = v\<rparr>"

definition error_response :: "string \<Rightarrow> nat \<Rightarrow> response" where
  "error_response msg code = json_response (JObj [(''error'', JStr msg)]) code"

text \<open>The \<^verbatim>\<open>catch\<close> of every handler.\<close>

definition internal_error :: response where
  "internal_error = error_response ''Internal server error'' 500"

text \<open>\<^verbatim>\<open>s.split(c)\<close> for a one-unit separator.\<close>

fun split_on :: "char \<Rightarrow> string \<Rightarrow> string list" where
  "split_on c [] = [[]]"
| "split_on c (x # xs) =
     (if x = c then [] # split_on c xs
      else (case split_on c xs of [] \<Rightarrow> [[x]] | w # ws \<Rightarrow> (x # w) # ws))"

definition nth_opt :: "'a list \<Rightarrow> nat \<Rightarrow> 'a option" where
  "nth_opt xs i = (if i < length xs then Some (xs ! i) else None)"

text \<open>\<^verbatim>\<open>c.req.header('Authorization')?.split(' ')[1]\<close>\<close>

definition access_token :: "request \<Rightarrow> string option" where
  "access_token req =
     (case authorization req of
        None \<Rightarrow> None
      | Some h \<Rightarrow> nth_opt (split_on (CHR '' '') h) 1)"

text \<open>
  The first lines of every protected handler, the same in each: the bearer token is
  taken from the header and resolved by the Auth Provider; the handler goes on with the
  user or returns the response on the left.
\<close>

definition authorize :: "env \<Rightarrow> request \<Rightarrow> response + user" where
  "authorize e req =
     (case access_token req of
        None \<Rightarrow> Inl (error_response ''Unauthorized: No token provided'' 401)
      | Some tok \<Rightarrow>
          if tok = [] then Inl (error_response ''Unauthorized: No token provided'' 401)
          else
            (let r = getUser e tok in
             case auth_user r of
               None \<Rightarrow> Inl (error_response ''Unauthorized'' 401)
             | Some u \<Rightarrow>
                 if auth_error r \<noteq> None then Inl (error_response ''Unauthorized'' 401)
                 else Inr u))"

text \<open>
  \<^verbatim>\<open>const { ... } = await c.req.json()\<close>: the body of the request when it can be
  destructured. A body that is not JSON makes \<^verbatim>\<open>c.req.json()\<close> throw (\<open>body\<close> is
  \<open>None\<close>) and the body \<^verbatim>\<open>null\<close> makes the destructuring throw; both end in the
  handler's \<^verbatim>\<open>catch\<close>.
\<close>

definition req_json :: "request \<Rightarrow> json option" where
  "req_json req =
     (case body req of
        None \<Rightarrow> None
      | Some JNull \<Rightarrow> None
      | Some b \<Rightarrow> Some b)"

definition profile_key :: "user \<Rightarrow> string" where
  "profile_key u = ''user:'' @ user_id u @ '':profile''"

definition note_prefix :: "user \<Rightarrow> string" where
  "note_prefix u = ''user:'' @ user_id u @ '':note:''"

definition note_key :: "user \<Rightarrow> string \<Rightarrow> string" where
  "note_key u noteId = ''user:'' @ user_id u @ '':note:'' @ noteId"

section \<open>Profile endpoints\<close>

text \<open>\<^verbatim>\<open>GET /profile\<close>\<close>

definition get_profile :: "env \<Rightarrow> request \<Rightarrow> kv_state \<Rightarrow> response \<times> kv_state" where
  "get_profile e req s =
     (case authorize e req of
        Inl r \<Rightarrow> (r, s)
      | Inr u \<Rightarrow>
          (let (profile, s1) = kv_get (profile_key u) s in
           case profile of
             None \<Rightarrow> (error_response ''Profile not found'' 404, s1)
           | Some p \<Rightarrow>
               if \<not> truthy_json p then (error_response ''Profile not found'' 404, s1)
               else (json_response (JObj [(''profile'', p)]) 200, s1)))"

text \<open>\<^verbatim>\<open>newPassword.length < 6\<close>\<close>

definition length_lt_6 :: "env \<Rightarrow> json \<Rightarrow> bool" where
  "length_lt_6 e v =
     (case js_length v of
        None \<Rightarrow> False
      | Some (JNum r) \<Rightarrow> r < 6
      | Some l \<Rightarrow> (case to_number e l of None \<Rightarrow> False | Some r \<Rightarrow> r < 6))"

text \<open>\<^verbatim>\<open>POST /profile/password\<close>\<close>

definition post_profile_password :: "env \<Rightarrow> request \<Rightarrow> kv_state \<Rightarrow> response \<times> kv_state" where
  "post_profile_password e req s =
     (case authorize e req of
        Inl r \<Rightarrow> (r, s)
      | Inr u \<Rightarrow>
          (case req_json req of
             None \<Rightarrow> (internal_error, s)
           | Some b \<Rightarrow>
               (case js_prop b ''newPassword'' of
                  None \<Rightarrow> (error_response ''Password must be at least 6 characters'' 400, s)
                | Some newPassword \<Rightarrow>
                    if \<not> truthy_json newPassword \<or> length_lt_6 e newPassword
                    then (error_response ''Password must be at least 6 characters'' 400, s)
                    else
                      (case updateUserById e (user_id u) (JObj [(''password'', newPassword)]) of
                         Some msg \<Rightarrow> (error_response msg 400, s)
                       | None \<Rightarrow>
                           (json_response
                              (JObj [(''message'', JStr ''Password updated successfully'')]) 200,
                            s)))))"

section \<open>Notes endpoints\<close>

text \<open>The filter of \<^verbatim>\<open>GET /notes\<close>:
  \<^verbatim>\<open>note && typeof note === 'object' && note.id && note.title\<close>\<close>

definition valid_note :: "json \<Rightarrow> bool" where
  "valid_note note \<longleftrightarrow>
     truthy_json note \<and> typeof_object note \<and> truthy (js_prop note ''id'') \<and> truthy (js_prop note ''title'')"

text \<open>\<^verbatim>\<open>GET /notes\<close>\<close>

definition get_notes :: "env \<Rightarrow> request \<Rightarrow> kv_state \<Rightarrow> response \<times> kv_state" where
  "get_notes e req s =
     (case authorize e req of
        Inl r \<Rightarrow> (r, s)
      | Inr u \<Rightarrow>
          (let (notesData, s1) = kv_getByPrefix (note_prefix u) s;
               notes = filter valid_note notesData
           in (json_response (JObj [(''notes'', JArr notes)]) 200, s1)))"

text \<open>The object literal \<^verbatim>\<open>note\<close> of \<^verbatim>\<open>POST /notes\<close>.\<close>

definition new_note ::
  "env \<Rightarrow> user \<Rightarrow> json option \<Rightarrow> json option \<Rightarrow> json option \<Rightarrow> json option \<Rightarrow> jsobj" where
  "new_note e u title text tags deadline =
     [(''id'', Some (JStr (randomUUID e))),
      (''userId'', Some (JStr (user_id u))),
      (''title'', Some (js_or title (JStr ''''))),
      (''text'', Some (js_or text (JStr ''''))),
      (''tags'', Some (js_or tags (JArr []))),
      (''deadline'', deadline),
      (''createdAt'', Some (JStr (toISOString e)))]"

text \<open>\<^verbatim>\<open>POST /notes\<close>\<close>

definition post_notes :: "env \<Rightarrow> request \<Rightarrow> kv_state \<Rightarrow> response \<times> kv_state" where
  "post_notes e req s =
     (case authorize e req of
        Inl r \<Rightarrow> (r, s)
      | Inr u \<Rightarrow>
          (case req_json req of
             None \<Rightarrow> (internal_error, s)
           | Some b \<Rightarrow>
               (let title = js_prop b ''title''; text = js_prop b ''text'';
                    tags = js_prop b ''tags''; deadline = js_prop b ''deadline''
                in if \<not> truthy title then (error_response ''Title is required'' 400, s)
                   else if \<not> truthy deadline then (error_response ''Deadline is required'' 400, s)
                   else
                     (let noteId = randomUUID e;
                          note = new_note e u title text tags deadline;
                          s1 = kv_set (note_key u noteId) (to_json note) s;
                          (savedNote, s2) = kv_get (note_key u noteId) s1
                      in (json_response (JObj [(''note'', to_json note)]) 200, s2)))))"

text \<open>The object literal \<^verbatim>\<open>updatedNote\<close> of \<^verbatim>\<open>PUT /notes/:id\<close>:
  \<^verbatim>\<open>{ ...existingNote, title, text, tags: tags || [], deadline: deadline || null }\<close>\<close>

definition updated_note ::
  "json \<Rightarrow> json option \<Rightarrow> json option \<Rightarrow> json option \<Rightarrow> json option \<Rightarrow> jsobj" where
  "updated_note existingNote title text tags deadline =
     obj_set ''deadline'' (Some (js_or deadline JNull))
       (obj_set ''tags'' (Some (js_or tags (JArr [])))
         (obj_set ''text'' text
           (obj_set ''title'' title (spread existingNote))))"

text \<open>\<^verbatim>\<open>PUT /notes/:id\<close>\<close>

definition put_notes_id :: "env \<Rightarrow> request \<Rightarrow> kv_state \<Rightarrow> response \<times> kv_state" where
  "put_notes_id e req s =
     (case authorize e req of
        Inl r \<Rightarrow> (r, s)
      | Inr u \<Rightarrow>
          (let noteId = param_id req in
           case req_json req of
             None \<Rightarrow> (internal_error, s)
           | Some b \<Rightarrow>
               (let title = js_prop b ''title''; text = js_prop b ''text'';
                    tags = js_prop b ''tags''; deadline = js_prop b ''deadline'';
                    (existingNote, s1) = kv_get (note_key u noteId) s
                in case existingNote of
                     None \<Rightarrow> (error_response ''Note not found'' 404, s1)
                   | Some ex \<Rightarrow>
                       if \<not> truthy_json ex then (error_response ''Note not found'' 404, s1)
                       else
                         (let updatedNote = updated_note ex title text tags deadline;
                              s2 = kv_set (note_key u noteId) (to_json updatedNote) s1
                          in (json_response (JObj [(''note'', to_json updatedNote)]) 200, s2)))))"

text \<open>\<^verbatim>\<open>DELETE /notes/:id\<close>\<close>

definition delete_notes_id :: "env \<Rightarrow> request \<Rightarrow> kv_state \<Rightarrow> response \<times> kv_state" where
  "delete_notes_id e req s =
     (case authorize e req of
        Inl r \<Rightarrow> (r, s)
      | Inr u \<Rightarrow>
          (let noteId = param_id req;
               (existingNote, s1) = kv_get (note_key u noteId) s
           in if \<not> truthy existingNote then (error_response ''Note not found'' 404, s1)
              else
                (let s2 = kv_del (note_key u noteId) s1
                 in (json_response (JObj [(''message'', JStr ''Note deleted successfully'')]) 200,
                     s2))))"

text \<open>The protected routes of the application and their handlers.\<close>

datatype route =
    GetProfile
  | PostProfilePassword
  | GetNotes
  | PostNotes
  | PutNotesId
  | DeleteNotesId

fun app :: "env \<Rightarrow> route \<Rightarrow> request \<Rightarrow> kv_state \<Rightarrow> response \<times> kv_state" where
  "app e GetProfile = get_profile e"
| "app e PostProfilePassword = post_profile_password e"
| "app e GetNotes = get_notes e"
| "app e PostNotes = post_notes e"
| "app e PutNotesId = put_notes_id e"
| "app e DeleteNotesId = delete_notes_id e"

fun notes_route :: "route \<Rightarrow> bool" where
  "notes_route GetProfile = False"
| "notes_route PostProfilePassword = False"
| "notes_route r = True"

section \<open>The register and login form of the client\<close>

text \<open>
  \<^verbatim>\<open>handleSubmit\<close> of the component \<^verbatim>\<open>LoginRegister\<close>. The form holds what the user typed. The calls that
  leave the browser are \<^verbatim>\<open>signUp\<close> (\<^verbatim>\<open>POST /signup\<close> through \<^verbatim>\<open>fetchAPI\<close>,
  which throws an \<^verbatim>\<open>Error\<close> with a message when the response is not ok) and
  \<^verbatim>\<open>supabase.auth.signInWithPassword\<close>; the outcome lists them in the order they are
  made.
\<close>

record login_form =
  isLogin :: bool
  username :: string
  email :: string
  password :: string
  confirmPassword :: string

datatype client_call =
    SignUpCall string string string
  | SignInCall string string

text \<open>The result \<^verbatim>\<open>{ data: { session, user }, error }\<close> of signing in: the message
  of the error, the access token of the session, the id of the user and the username of
  its metadata.\<close>

record sign_in_result =
  login_error :: "string option"
  session_token :: "string option"
  signed_user :: "(string \<times> string option) option"

record client_env =
  signUp :: "string \<Rightarrow> string \<Rightarrow> string \<Rightarrow> string option"
  signInWithPassword :: "string \<Rightarrow> string \<Rightarrow> sign_in_result"

record submit_outcome =
  calls :: "client_call list"
  error_shown :: string
  now_isLogin :: bool
  loading :: bool
  onLogin :: "(string \<times> string \<times> string) option"

text \<open>White space as \<^verbatim>\<open>trim\<close> removes it, among the units a \<^typ>\<open>char\<close> can stand for.\<close>

definition js_space :: "char \<Rightarrow> bool" where
  "js_space c \<longleftrightarrow> of_char c \<in> {9, 10, 11, 12, 13, 32, 160 :: nat}"

definition trim :: "string \<Rightarrow> string" where
  "trim s = rev (dropWhile js_space (rev (dropWhile js_space s)))"

definition rejected :: "login_form \<Rightarrow> string \<Rightarrow> submit_outcome" where
  "rejected f msg =
     \<lparr>calls = [], error_shown = msg, now_isLogin = isLogin f, loading = False, onLogin = None\<rparr>"

definition handleSubmit :: "client_env \<Rightarrow> login_form \<Rightarrow> submit_outcome" where
  "handleSubmit c f =
     (if isLogin f then
        (if trim (email f) = [] \<or> trim (password f) = [] then rejected f ''Please fill in all fields''
         else
           (let r = signInWithPassword c (email f) (password f);
                sent = [SignInCall (email f) (password f)]
            in case login_error r of
                 Some msg \<Rightarrow>
                   \<lparr>calls = sent, error_shown = msg, now_isLogin = True, loading = False,
                    onLogin = None\<rparr>
               | None \<Rightarrow>
                   (case (session_token r, signed_user r) of
                      (Some tok, Some (uid, meta)) \<Rightarrow>
                        (let name =
                           (case meta of
                              Some n \<Rightarrow> if n \<noteq> [] then n else hd (split_on (CHR ''@'') (email f))
                            | None \<Rightarrow> hd (split_on (CHR ''@'') (email f)))
                         in \<lparr>calls = sent, error_shown = [], now_isLogin = True, loading = True,
                             onLogin = Some (name, tok, uid)\<rparr>)
                    | _ \<Rightarrow>
                        \<lparr>calls = sent, error_shown = ''Login failed'', now_isLogin = True,
                         loading = False, onLogin = None\<rparr>)))
      else
        (if trim (email f) = [] \<or> trim (password f) = [] \<or> trim (username f) = []
         then rejected f ''Please fill in all fields''
         else if password f \<noteq> confirmPassword f then rejected f ''Passwords do not match''
         else if length (password f) < 6
         then rejected f ''Password must be at least 6 characters''
         else
           (case signUp c (email f) (password f) (username f) of
              Some msg \<Rightarrow>
                \<lparr>calls = [SignUpCall (email f) (password f) (username f)], error_shown = msg,
                 now_isLogin = False, loading = False, onLogin = None\<rparr>
            | None \<Rightarrow>
                (let r = signInWithPassword c (email f) (password f);
                     sent = [SignUpCall (email f) (password f) (username f),
                             SignInCall (email f) (password f)]
                 in case login_error r of
                      Some msg \<Rightarrow>
                        \<lparr>calls = sent, error_shown = ''Registration successful! Please log in.'',
                         now_isLogin = True, loading = False, onLogin = None\<rparr>
                    | None \<Rightarrow>
                        (case (session_token r, signed_user r) of
                           (Some tok, Some (uid, meta)) \<Rightarrow>
                             \<lparr>calls = sent, error_shown = [], now_isLogin = False, loading = True,
                              onLogin = Some (username f, tok, uid)\<rparr>
                         | _ \<Rightarrow>
                             \<lparr>calls = sent,
                              error_shown = ''Registration successful! Please log in.'',
                              now_isLogin = True, loading = False, onLogin = None\<rparr>)))))"

section \<open>Notions the properties are stated with\<close>

text \<open>The bearer token of the request is missing, or it does not resolve to a user.\<close>

definition no_valid_token :: "env \<Rightarrow> request \<Rightarrow> bool" where
  "no_valid_token e req \<longleftrightarrow>
     (case access_token req of
        None \<Rightarrow> True
      | Some tok \<Rightarrow>
          tok = [] \<or> auth_user (getUser e tok) = None \<or> auth_error (getUser e tok) \<noteq> None)"

text \<open>The property \<open>f\<close> of the value stored under the key \<open>k\<close>.\<close>

definition stored_field :: "kv_state \<Rightarrow> string \<Rightarrow> string \<Rightarrow> json option" where
  "stored_field s k f = (case map_of (table s) k of None \<Rightarrow> None | Some n \<Rightarrow> js_prop n f)"

text \<open>A sequence of \<^verbatim>\<open>PUT /notes/:id\<close> requests, one after the other.\<close>

definition put_all :: "(env \<times> request) list \<Rightarrow> kv_state \<Rightarrow> kv_state" where
  "put_all cs s = fold (\<lambda>(e, req) s'. snd (put_notes_id e req s')) cs s"

section \<open>Example users, requests and stores\<close>

text \<open>
  Two users and an Auth Provider that knows their tokens; the identifier and the time
  the server draws during the request are parameters.
\<close>

definition alice :: user where
  "alice = \<lparr>user_id = ''alice''\<rparr>"

definition bob :: user where
  "bob = \<lparr>user_id = ''bob''\<rparr>"

definition example_env :: "string \<Rightarrow> string \<Rightarrow> env" where
  "example_env uuid time =
     \<lparr>getUser = (\<lambda>tok. if tok = ''token-a'' then \<lparr>auth_user = Some alice, auth_error = None\<rparr>
                       else if tok = ''token-b'' then \<lparr>auth_user = Some bob, auth_error = None\<rparr>
                       else \<lparr>auth_user = None, auth_error = Some ''invalid JWT''\<rparr>),
      updateUserById = (\<lambda>uid pw. None),
      randomUUID = uuid,
      toISOString = time,
      to_number = (\<lambda>v. None)\<rparr>"

text \<open>A request with a bearer token, a path parameter and a body.\<close>

definition bearer :: "string \<Rightarrow> string \<Rightarrow> json option \<Rightarrow> request" where
  "bearer tok nid b = \<lparr>authorization = Some (''Bearer '' @ tok), param_id = nid, body = b\<rparr>"

text \<open>
  Bodies: a full update, an update of the text alone, a create that also names an id and a
  user id of the client's choice, a password change.
\<close>

definition retitle_body :: json where
  "retitle_body =
     JObj [(''title'', JStr ''Pay rent (late)''), (''text'', JStr ''today''),
           (''tags'', JArr [JStr ''bills'', JStr ''urgent'']),
           (''deadline'', JStr ''2025-01-05T23:59:59.999Z'')]"

definition text_only_body :: json where
  "text_only_body = JObj [(''text'', JStr ''paid'')]"

definition forged_body :: json where
  "forged_body =
     JObj [(''id'', JStr ''n1''), (''userId'', JStr ''bob''), (''title'', JStr ''Pay rent''),
           (''deadline'', JStr ''2025-01-01T23:59:59.999Z''), (''tags'', JArr [JStr ''bills''])]"

definition password_body :: "string \<Rightarrow> json" where
  "password_body pw = JObj [(''newPassword'', JStr pw)]"

text \<open>Stored values: a note of alice, an entry of alice without title, a note of bob.\<close>

definition rent_note :: json where
  "rent_note =
     JObj [(''id'', JStr ''n1''), (''userId'', JStr ''alice''), (''title'', JStr ''Pay rent''),
           (''text'', JStr ''before the 1st''), (''tags'', JArr [JStr ''bills'']),
           (''deadline'', JStr ''2025-01-01T23:59:59.999Z''),
           (''createdAt'', JStr ''2024-12-01T10:00:00.000Z'')]"

definition untitled_note :: json where
  "untitled_note =
     JObj [(''id'', JStr ''n3''), (''userId'', JStr ''alice''), (''text'', JStr ''paid''),
           (''tags'', JArr []), (''deadline'', JNull),
           (''createdAt'', JStr ''2024-12-02T10:00:00.000Z'')]"

definition milk_note :: json where
  "milk_note =
     JObj [(''id'', JStr ''m1''), (''userId'', JStr ''bob''), (''title'', JStr ''Buy milk''),
           (''text'', JStr []), (''tags'', JArr []),
           (''deadline'', JStr ''2025-02-01T23:59:59.999Z''),
           (''createdAt'', JStr ''2024-12-03T10:00:00.000Z'')]"



text \<open>
  Stores: the empty one, one with the note of alice, one with entries of both users and a
  profile.
\<close>

definition empty_store :: kv_state where
  "empty_store = \<lparr>table = [], log = []\<rparr>"

definition rent_store :: kv_state where
  "rent_store = \<lparr>table = [(''user:alice:note:n1'', rent_note)], log = []\<rparr>"

definition mixed_store :: kv_state where
  "mixed_store =
     \<lparr>table = [(''user:alice:profile'', JObj [(''userId'', JStr ''alice'')]),
               (''user:alice:note:n1'', rent_note),
               (''user:bob:note:m1'', milk_note),
               (''user:alice:note:n3'', untitled_note)],
      log = []\<rparr>"

text \<open>A register form and a client whose signup and sign-in succeed.\<close>

definition register_form :: "string \<Rightarrow> login_form" where
  "register_form pw =
     \<lparr>isLogin = False, username = ''ally'', email = ''ally@example.org'', password = pw,
      confirmPassword = pw\<rparr>"

definition example_client :: client_env where
  "example_client =
     \<lparr>signUp = (\<lambda>em pw un. None),
      signInWithPassword = (\<lambda>em pw.
        \<lparr>login_error = None, session_token = Some ''token-a'',
         signed_user = Some (''alice'', Some ''ally'')\<rparr>)\<rparr>"

section \<open>Responses and authorization\<close>

lemma json_response_simps:
  "status (json_response v code) = code"
  "payload (json_response v code) = v"
  by (simp_all add: json_response_def)

lemma error_response_simps:
  "status (error_response msg code) = code"
  "payload (error_response msg code) = JObj [(''error'', JStr msg)]"
  by (simp_all add: error_response_def json_response_def)

lemma no_valid_token_authorize:
  "no_valid_token e req \<Longrightarrow> \<exists>r. authorize e req = Inl r \<and> status r = 401"
  by (auto simp: no_valid_token_def authorize_def Let_def error_response_simps
      split: option.splits)

lemma authorize_Inl_error:
  "authorize e req = Inl r \<Longrightarrow> \<exists>msg. r = error_response msg 401"
  by (auto simp: authorize_def Let_def split: option.splits if_splits)

lemma authorize_ignores_body: "authorize e (req\<lparr>body := b\<rparr>) = authorize e req"
  by (simp add: authorize_def access_token_def)

lemma app_unauthorized:
  "authorize e req = Inl r \<Longrightarrow> app e rt req s = (r, s)"
  by (cases rt)
    (simp_all add: get_profile_def post_profile_password_def get_notes_def post_notes_def
      put_notes_id_def delete_notes_id_def)

section \<open>Objects, their properties and their serialisation\<close>

lemma map_of_to_json_props:
  "map_of (to_json_props obj) k = (case map_of obj k of None \<Rightarrow> None | Some x \<Rightarrow> x)"
proof (induction obj rule: to_json_props.induct)
  case 1
  show ?case by simp
next
  case (2 k' x ps)
  show ?case
  proof (cases "k = k'")
    case True
    then show ?thesis
      using "2.IH" by (cases x) (simp_all add: delete_conv')
  next
    case False
    then show ?thesis
      using "2.IH" by (cases x) (simp_all add: delete_conv')
  qed
qed

lemma js_prop_to_json:
  "js_prop (to_json obj) k = (case map_of obj k of None \<Rightarrow> None | Some x \<Rightarrow> x)"
  by (simp add: js_prop_def to_json_def map_of_to_json_props)

lemma map_of_obj_set:
  "map_of (obj_set k x obj) k' = (if k' = k then Some x else map_of obj k')"
  by (simp add: obj_set_def update_conv')

lemma map_of_spread: "map_of (spread v) k = map_option Some (js_prop v k)"
  by (simp add: spread_def js_prop_def map_of_map)

lemma js_prop_updated_note:
  "js_prop (to_json (updated_note ex t x g d)) k =
     (if k = ''deadline'' then Some (js_or d JNull)
      else if k = ''tags'' then Some (js_or g (JArr []))
      else if k = ''text'' then x
      else if k = ''title'' then t
      else js_prop ex k)"
  by (cases "js_prop ex k")
    (simp_all add: js_prop_to_json updated_note_def map_of_obj_set map_of_spread)

lemma js_or_truthy: "truthy x \<Longrightarrow> Some (js_or x d) = x"
  by (cases x) (simp_all add: js_or_def)

lemma js_prop_new_note:
  "js_prop (to_json (new_note e u t x g d)) k =
     (if k = ''id'' then Some (JStr (randomUUID e))
      else if k = ''userId'' then Some (JStr (user_id u))
      else if k = ''title'' then Some (js_or t (JStr []))
      else if k = ''text'' then Some (js_or x (JStr []))
      else if k = ''tags'' then Some (js_or g (JArr []))
      else if k = ''deadline'' then d
      else if k = ''createdAt'' then Some (JStr (toISOString e))
      else None)"
  by (simp add: js_prop_to_json new_note_def)

lemma to_json_is_object: "truthy_json (to_json obj)" "typeof_object (to_json obj)"
  by (simp_all add: to_json_def)

lemma valid_new_note:
  assumes "truthy t" and "randomUUID e \<noteq> []"
  shows "valid_note (to_json (new_note e u t x g d))"
  using assms
  by (simp add: valid_note_def to_json_is_object js_prop_new_note js_or_truthy [OF assms(1)])

section \<open>The table, its prefixes and the namespaces\<close>

lemma clearjunk_entry_iff:
  "(k, v) \<in> set (AList.clearjunk t) \<longleftrightarrow> map_of t k = Some v"
  using map_of_eq_Some_iff [OF distinct_clearjunk, of t k v] by (simp add: map_of_clearjunk)

lemma under_prefix_entry_iff:
  "(k, v) \<in> set (under_prefix p t) \<longleftrightarrow> prefix p k \<and> map_of t k = Some v"
  by (auto simp: under_prefix_def clearjunk_entry_iff)

lemma distinct_under_prefix: "distinct (map fst (under_prefix p t))"
  unfolding under_prefix_def by (rule distinct_map_filter) simp

lemma map_of_under_prefix:
  "map_of (under_prefix p t) k = (if prefix p k then map_of t k else None)"
proof (cases "map_of (under_prefix p t) k")
  case None
  show ?thesis
  proof (cases "prefix p k \<and> map_of t k \<noteq> None")
    case True
    then obtain v where "(k, v) \<in> set (under_prefix p t)"
      by (auto simp: under_prefix_entry_iff)
    with None show ?thesis
      by (metis map_of_eq_None_iff fst_conv image_eqI)
  next
    case False
    with None show ?thesis by auto
  qed
next
  case (Some v)
  then have "(k, v) \<in> set (under_prefix p t)"
    by (rule map_of_SomeD)
  with Some show ?thesis
    by (simp add: under_prefix_entry_iff)
qed

lemma update_fresh: "k \<notin> fst ` set t \<Longrightarrow> AList.update k v t = t @ [(k, v)]"
  by (induction t) auto

lemma filter_update_other:
  "\<not> P k \<Longrightarrow> filter (\<lambda>kv. P (fst kv)) (AList.update k v t) = filter (\<lambda>kv. P (fst kv)) t"
  by (induction t) auto

lemma filter_delete_other:
  "\<not> P k \<Longrightarrow> filter (\<lambda>kv. P (fst kv)) (AList.delete k t) = filter (\<lambda>kv. P (fst kv)) t"
  by (induction t) auto

lemma under_prefix_update_other:
  "\<not> prefix p k \<Longrightarrow> under_prefix p (AList.update k v t) = under_prefix p t"
  by (simp add: under_prefix_def clearjunk_update filter_update_other)

lemma under_prefix_delete_other:
  "\<not> prefix p k \<Longrightarrow> under_prefix p (AList.delete k t) = under_prefix p t"
  by (simp add: under_prefix_def clearjunk_delete filter_delete_other)

lemma under_prefix_update_fresh:
  assumes "prefix p k" and "k \<notin> fst ` set t"
  shows "under_prefix p (AList.update k v t) = under_prefix p t @ [(k, v)]"
proof -
  from assms(2) have "k \<notin> fst ` set (AList.clearjunk t)"
    by (simp add: dom_clearjunk)
  then have "AList.update k v (AList.clearjunk t) = AList.clearjunk t @ [(k, v)]"
    by (rule update_fresh)
  with assms(1) show ?thesis
    by (simp add: under_prefix_def clearjunk_update)
qed

lemma prefix_note_key: "prefix (note_prefix u) (note_key u n)"
  by (simp add: note_prefix_def note_key_def)

lemma take_until_colon:
  assumes "CHR '':'' \<notin> set a"
  shows "takeWhile (\<lambda>c. c \<noteq> CHR '':'') (a @ CHR '':'' # r) = a"
  using assms by (induction a) auto

lemma note_prefix_inj:
  assumes "CHR '':'' \<notin> set (user_id u)" and "CHR '':'' \<notin> set (user_id v)"
    and "prefix (note_prefix u) k" and "prefix (note_prefix v) k"
  shows "user_id u = user_id v"
proof -
  from assms(3) obtain r where "k = ''user:'' @ user_id u @ '':note:'' @ r"
    by (auto simp: note_prefix_def prefix_def)
  moreover from assms(4) obtain r' where "k = ''user:'' @ user_id v @ '':note:'' @ r'"
    by (auto simp: note_prefix_def prefix_def)
  ultimately have "user_id u @ CHR '':'' # (''note:'' @ r) = user_id v @ CHR '':'' # (''note:'' @ r')"
    by simp
  then have "takeWhile (\<lambda>c. c \<noteq> CHR '':'') (user_id u @ CHR '':'' # (''note:'' @ r)) =
      takeWhile (\<lambda>c. c \<noteq> CHR '':'') (user_id v @ CHR '':'' # (''note:'' @ r'))"
    by (rule arg_cong)
  then show ?thesis
    by (simp only: take_until_colon [OF assms(1)] take_until_colon [OF assms(2)])
qed

lemma other_namespace:
  assumes "CHR '':'' \<notin> set (user_id u)" and "CHR '':'' \<notin> set (user_id v)"
    and "user_id v \<noteq> user_id u"
  shows "\<forall>k. prefix (note_prefix u) k \<longrightarrow> \<not> prefix (note_prefix v) k"
  using note_prefix_inj [OF assms(1,2)] assms(3) by metis

lemma new_accesses_log: "new_accesses s (s\<lparr>table := t, log := log s @ acc\<rparr>) = acc"
  by (simp add: new_accesses_def)

section \<open>The handlers, case by case\<close>

lemma get_notes_authorized:
  assumes "authorize e req = Inr u"
  shows "get_notes e req s =
           (json_response
              (JObj [(''notes'',
                 JArr (filter valid_note (map snd (under_prefix (note_prefix u) (table s)))))]) 200,
            s\<lparr>log := log s @ [KvGetByPrefix (note_prefix u)]\<rparr>)"
  using assms by (simp add: get_notes_def kv_getByPrefix_def)

lemma get_notes_listed_valid:
  assumes "js_prop (payload (fst (get_notes e req s))) ''notes'' = Some (JArr ns)"
  shows "\<forall>n\<in>set ns. valid_note n"
proof (cases "authorize e req")
  case (Inl r)
  then obtain msg where "r = error_response msg 401"
    using authorize_Inl_error by blast
  with Inl assms show ?thesis
    by (simp add: get_notes_def error_response_simps js_prop_def)
next
  case (Inr u)
  with assms have "ns = filter valid_note (map snd (under_prefix (note_prefix u) (table s)))"
    by (simp add: get_notes_def kv_getByPrefix_def json_response_simps js_prop_def)
  then show ?thesis by simp
qed

lemma post_notes_created:
  assumes "authorize e req = Inr u" and "req_json req = Some b"
    and "truthy (js_prop b ''title'')" and "truthy (js_prop b ''deadline'')"
  shows "post_notes e req s =
           (json_response
              (JObj [(''note'',
                 to_json (new_note e u (js_prop b ''title'') (js_prop b ''text'')
                            (js_prop b ''tags'') (js_prop b ''deadline'')))]) 200,
            s\<lparr>table := AList.update (note_key u (randomUUID e))
                 (to_json (new_note e u (js_prop b ''title'') (js_prop b ''text'')
                            (js_prop b ''tags'') (js_prop b ''deadline''))) (table s),
              log := log s @ [KvSet (note_key u (randomUUID e)), KvGet (note_key u (randomUUID e))]\<rparr>)"
  using assms by (simp add: post_notes_def kv_get_def kv_set_def Let_def)

lemma post_notes_rejected:
  assumes "authorize e req = Inr u" and "req_json req = Some b"
    and "\<not> truthy (js_prop b ''title'') \<or> \<not> truthy (js_prop b ''deadline'')"
  shows "post_notes e req s =
           (error_response
              (if \<not> truthy (js_prop b ''title'') then ''Title is required''
               else ''Deadline is required'') 400, s)"
  using assms by (auto simp: post_notes_def Let_def)

lemma put_notes_id_not_found:
  assumes "authorize e req = Inr u" and "req_json req = Some b"
    and "\<not> truthy (map_of (table s) (note_key u (param_id req)))"
  shows "put_notes_id e req s =
           (error_response ''Note not found'' 404,
            s\<lparr>log := log s @ [KvGet (note_key u (param_id req))]\<rparr>)"
  using assms by (cases "map_of (table s) (note_key u (param_id req))")
    (simp_all add: put_notes_id_def kv_get_def Let_def)

lemma put_notes_id_found:
  assumes "authorize e req = Inr u" and "req_json req = Some b"
    and "map_of (table s) (note_key u (param_id req)) = Some ex" and "truthy_json ex"
  shows "put_notes_id e req s =
           (json_response
              (JObj [(''note'',
                 to_json (updated_note ex (js_prop b ''title'') (js_prop b ''text'')
                            (js_prop b ''tags'') (js_prop b ''deadline'')))]) 200,
            s\<lparr>table := AList.update (note_key u (param_id req))
                 (to_json (updated_note ex (js_prop b ''title'') (js_prop b ''text'')
                            (js_prop b ''tags'') (js_prop b ''deadline''))) (table s),
              log := log s @ [KvGet (note_key u (param_id req)), KvSet (note_key u (param_id req))]\<rparr>)"
  using assms by (simp add: put_notes_id_def kv_get_def kv_set_def Let_def)

lemma put_notes_id_cases:
  obtains
    (unchanged) "table (snd (put_notes_id e req s)) = table s"
  | (updated) u b ex where "authorize e req = Inr u" and "req_json req = Some b"
      and "map_of (table s) (note_key u (param_id req)) = Some ex" and "truthy_json ex"
proof (cases "authorize e req")
  case (Inl r)
  then have "table (snd (put_notes_id e req s)) = table s"
    by (simp add: put_notes_id_def)
  then show ?thesis by (rule unchanged)
next
  case (Inr u)
  show ?thesis
  proof (cases "req_json req")
    case None
    with Inr have "table (snd (put_notes_id e req s)) = table s"
      by (simp add: put_notes_id_def)
    then show ?thesis by (rule unchanged)
  next
    case (Some b)
    show ?thesis
    proof (cases "truthy (map_of (table s) (note_key u (param_id req)))")
      case False
      with Inr Some have "table (snd (put_notes_id e req s)) = table s"
        by (simp add: put_notes_id_not_found)
      then show ?thesis by (rule unchanged)
    next
      case True
      then obtain ex where "map_of (table s) (note_key u (param_id req)) = Some ex"
        and "truthy_json ex"
        by (cases "map_of (table s) (note_key u (param_id req))") auto
      with Inr Some show ?thesis by (rule updated)
    qed
  qed
qed

lemma put_notes_id_keeps_field:
  assumes "f \<notin> {''title'', ''text'', ''tags'', ''deadline''}"
  shows "stored_field (snd (put_notes_id e req s)) k f = stored_field s k f"
proof (cases e req s rule: put_notes_id_cases)
  case unchanged
  then show ?thesis by (simp add: stored_field_def)
next
  case (updated u b ex)
  show ?thesis
  proof (cases "k = note_key u (param_id req)")
    case True
    with updated assms show ?thesis
      by (simp add: put_notes_id_found stored_field_def update_conv' js_prop_updated_note)
  next
    case False
    with updated show ?thesis
      by (simp add: put_notes_id_found stored_field_def update_conv')
  qed
qed

lemma put_all_keeps_field:
  assumes "f \<notin> {''title'', ''text'', ''tags'', ''deadline''}"
  shows "stored_field (put_all cs s) k f = stored_field s k f"
  unfolding put_all_def using assms
  by (induction cs arbitrary: s) (auto simp: put_notes_id_keeps_field)

lemma delete_notes_id_not_found:
  assumes "authorize e req = Inr u"
    and "\<not> truthy (map_of (table s) (note_key u (param_id req)))"
  shows "delete_notes_id e req s =
           (error_response ''Note not found'' 404,
            s\<lparr>log := log s @ [KvGet (note_key u (param_id req))]\<rparr>)"
  using assms by (simp add: delete_notes_id_def kv_get_def Let_def)

lemma delete_notes_id_found:
  assumes "authorize e req = Inr u"
    and "truthy (map_of (table s) (note_key u (param_id req)))"
  shows "delete_notes_id e req s =
           (json_response (JObj [(''message'', JStr ''Note deleted successfully'')]) 200,
            s\<lparr>table := AList.delete (note_key u (param_id req)) (table s),
              log := log s @ [KvGet (note_key u (param_id req)), KvDel (note_key u (param_id req))]\<rparr>)"
  using assms by (simp add: delete_notes_id_def kv_get_def kv_del_def Let_def)

lemma length_lt_6_string: "length_lt_6 e (JStr p) \<longleftrightarrow> length p < 6"
  by (simp add: length_lt_6_def js_length_def)

lemma post_profile_password_short:
  assumes "authorize e req = Inr u" and "req_json req = Some b"
    and "js_prop b ''newPassword'' = Some (JStr p)" and "length p < 6"
  shows "post_profile_password e req s =
           (error_response ''Password must be at least 6 characters'' 400, s)"
  using assms by (simp add: post_profile_password_def length_lt_6_string)

lemma post_profile_password_long:
  assumes "authorize e req = Inr u" and "req_json req = Some b"
    and "js_prop b ''newPassword'' = Some (JStr p)" and "6 \<le> length p"
  shows "post_profile_password e req s =
           (case updateUserById e (user_id u) (JObj [(''password'', JStr p)]) of
              Some msg \<Rightarrow> (error_response msg 400, s)
            | None \<Rightarrow>
                (json_response (JObj [(''message'', JStr ''Password updated successfully'')]) 200,
                 s))"
proof -
  from assms(4) have "p \<noteq> []" and "\<not> length p < 6"
    by auto
  with assms(1-3) show ?thesis
    by (simp add: post_profile_password_def length_lt_6_string)
qed

lemma register_short_password:
  assumes "\<not> isLogin f" and "length (password f) < 6"
  shows "calls (handleSubmit c f) = [] \<and> onLogin (handleSubmit c f) = None \<and>
         error_shown (handleSubmit c f) \<in>
           {''Please fill in all fields'', ''Passwords do not match'',
            ''Password must be at least 6 characters''}"
proof -
  let ?blank = "trim (email f) = [] \<or> trim (password f) = [] \<or> trim (username f) = []"
  consider (blank) "?blank"
    | (mismatch) "\<not> ?blank" and "password f \<noteq> confirmPassword f"
    | (short) "\<not> ?blank" and "password f = confirmPassword f"
    by blast
  then obtain msg where "handleSubmit c f = rejected f msg"
    and "msg \<in> {''Please fill in all fields'', ''Passwords do not match'',
                 ''Password must be at least 6 characters''}"
  proof cases
    case blank
    with assms(1) have "handleSubmit c f = rejected f ''Please fill in all fields''"
      by (simp add: handleSubmit_def)
    then show ?thesis by (rule that) simp
  next
    case mismatch
    with assms(1) have "handleSubmit c f = rejected f ''Passwords do not match''"
      by (simp add: handleSubmit_def)
    then show ?thesis by (rule that) simp
  next
    case short
    with assms have "handleSubmit c f = rejected f ''Password must be at least 6 characters''"
      by (simp add: handleSubmit_def)
    then show ?thesis by (rule that) simp
  qed
  then show ?thesis
    by (simp add: rejected_def)
qed

section \<open>What a notes handler touches\<close>

text \<open>What a notes handler does to the store, for an authenticated user.\<close>

lemma notes_footprint:
  assumes "notes_route rt" and "authorize e req = Inr u"
  shows "\<exists>acc t. snd (app e rt req s) = s\<lparr>table := t, log := log s @ acc\<rparr> \<and>
           set (map access_key acc) \<subseteq>
             {note_prefix u, note_key u (param_id req), note_key u (randomUUID e)} \<and>
           (t = table s \<or>
            (\<exists>k v. prefix (note_prefix u) k \<and>
               (t = AList.update k v (table s) \<or> t = AList.delete k (table s))))"
proof (cases rt)
  case GetProfile
  with assms(1) show ?thesis by simp
next
  case PostProfilePassword
  with assms(1) show ?thesis by simp
next
  case GetNotes
  have "snd (app e rt req s) = s\<lparr>table := table s, log := log s @ [KvGetByPrefix (note_prefix u)]\<rparr>"
    by (simp add: GetNotes get_notes_authorized [OF assms(2)])
  then show ?thesis by (intro exI conjI) (assumption | simp)+
next
  case PostNotes
  show ?thesis
  proof (cases "req_json req")
    case None
    with assms(2) have "snd (app e rt req s) = s\<lparr>table := table s, log := log s @ []\<rparr>"
      by (simp add: PostNotes post_notes_def)
    then show ?thesis by (intro exI conjI) (assumption | simp)+
  next
    case (Some b)
    show ?thesis
    proof (cases "truthy (js_prop b ''title'') \<and> truthy (js_prop b ''deadline'')")
      case False
      with assms(2) Some have "snd (app e rt req s) = s\<lparr>table := table s, log := log s @ []\<rparr>"
        by (simp add: PostNotes post_notes_rejected)
      then show ?thesis by (intro exI conjI) (assumption | simp)+
    next
      case True
      let ?k = "note_key u (randomUUID e)"
      from True assms(2) Some obtain n where
        "snd (app e rt req s) = s\<lparr>table := AList.update ?k n (table s), log := log s @ [KvSet ?k, KvGet ?k]\<rparr>"
        by (simp add: PostNotes post_notes_created)
      moreover have "prefix (note_prefix u) ?k" by (rule prefix_note_key)
      ultimately show ?thesis by (intro exI conjI) (assumption | simp | blast)+
    qed
  qed
next
  case PutNotesId
  let ?k = "note_key u (param_id req)"
  have p: "prefix (note_prefix u) ?k" by (rule prefix_note_key)
  show ?thesis
  proof (cases "req_json req")
    case None
    with assms(2) have "snd (app e rt req s) = s\<lparr>table := table s, log := log s @ []\<rparr>"
      by (simp add: PutNotesId put_notes_id_def)
    then show ?thesis by (intro exI conjI) (assumption | simp)+
  next
    case (Some b)
    show ?thesis
    proof (cases "truthy (map_of (table s) ?k)")
      case False
      with assms(2) Some have "snd (app e rt req s) = s\<lparr>table := table s, log := log s @ [KvGet ?k]\<rparr>"
        by (simp add: PutNotesId put_notes_id_not_found)
      then show ?thesis by (intro exI conjI) (assumption | simp)+
    next
      case True
      then obtain ex where "map_of (table s) ?k = Some ex" and "truthy_json ex"
        by (cases "map_of (table s) ?k") auto
      with assms(2) Some obtain n where
        "snd (app e rt req s) = s\<lparr>table := AList.update ?k n (table s), log := log s @ [KvGet ?k, KvSet ?k]\<rparr>"
        by (simp add: PutNotesId put_notes_id_found)
      with p show ?thesis by (intro exI conjI) (assumption | simp | blast)+
    qed
  qed
next
  case DeleteNotesId
  let ?k = "note_key u (param_id req)"
  have p: "prefix (note_prefix u) ?k" by (rule prefix_note_key)
  show ?thesis
  proof (cases "truthy (map_of (table s) ?k)")
    case False
    with assms(2) have "snd (app e rt req s) = s\<lparr>table := table s, log := log s @ [KvGet ?k]\<rparr>"
      by (simp add: DeleteNotesId delete_notes_id_not_found)
    then show ?thesis by (intro exI conjI) (assumption | simp)+
  next
    case True
    with assms(2) have
      "snd (app e rt req s) = s\<lparr>table := AList.delete ?k (table s), log := log s @ [KvGet ?k, KvDel ?k]\<rparr>"
      by (simp add: DeleteNotesId delete_notes_id_found)
    with p show ?thesis by (intro exI conjI) (assumption | simp | blast)+
  qed
qed

lemma notes_accesses:
  assumes "notes_route rt" and "authorize e req = Inr u"
  shows "set (map access_key (new_accesses s (snd (app e rt req s)))) \<subseteq>
           {note_prefix u, note_key u (param_id req), note_key u (randomUUID e)}"
proof -
  from notes_footprint [OF assms, of s] obtain acc t where
    "snd (app e rt req s) = s\<lparr>table := t, log := log s @ acc\<rparr>"
    and "set (map access_key acc) \<subseteq>
        {note_prefix u, note_key u (param_id req), note_key u (randomUUID e)}"
    by blast
  then show ?thesis
    by (simp only: new_accesses_log)
qed

lemma notes_leave_other_keys:
  assumes "notes_route rt" and "authorize e req = Inr u" and "\<not> prefix (note_prefix u) k"
  shows "map_of (table (snd (app e rt req s))) k = map_of (table s) k"
proof -
  from notes_footprint [OF assms(1,2), of s] obtain acc t where
    "snd (app e rt req s) = s\<lparr>table := t, log := log s @ acc\<rparr>"
    and "t = table s \<or> (\<exists>k v. prefix (note_prefix u) k \<and>
        (t = AList.update k v (table s) \<or> t = AList.delete k (table s)))"
    by blast
  with assms(3) show ?thesis
    by (auto simp: update_conv' delete_conv')
qed

lemma notes_leave_other_namespaces:
  assumes "notes_route rt" and "authorize e req = Inr u"
    and "\<forall>k. prefix (note_prefix u) k \<longrightarrow> \<not> prefix p k"
  shows "under_prefix p (table (snd (app e rt req s))) = under_prefix p (table s)"
proof -
  from notes_footprint [OF assms(1,2), of s] obtain acc t where
    "snd (app e rt req s) = s\<lparr>table := t, log := log s @ acc\<rparr>"
    and "t = table s \<or> (\<exists>k v. prefix (note_prefix u) k \<and>
        (t = AList.update k v (table s) \<or> t = AList.delete k (table s)))"
    by blast
  with assms(3) show ?thesis
    by (auto simp: under_prefix_update_other under_prefix_delete_other)
qed

lemma notes_read_own_namespace:
  assumes "notes_route rt" and "authorize e req = Inr u"
    and "under_prefix (note_prefix u) (table s2) = under_prefix (note_prefix u) (table s)"
  shows "fst (app e rt req s2) = fst (app e rt req s)"
proof -
  have same: "map_of (table s2) (note_key u n) = map_of (table s) (note_key u n)" for n
    using map_of_under_prefix [of "note_prefix u" "table s2" "note_key u n"]
      map_of_under_prefix [of "note_prefix u" "table s" "note_key u n"] assms(3)
    by (simp add: prefix_note_key)
  show ?thesis
  proof (cases rt)
    case GetProfile
    with assms(1) show ?thesis by simp
  next
    case PostProfilePassword
    with assms(1) show ?thesis by simp
  next
    case GetNotes
    then show ?thesis
      by (simp add: get_notes_authorized [OF assms(2)] assms(3))
  next
    case PostNotes
    show ?thesis
    proof (cases "req_json req")
      case None
      with assms(2) show ?thesis by (simp add: PostNotes post_notes_def)
    next
      case (Some b)
      with assms(2) show ?thesis
        by (cases "truthy (js_prop b ''title'') \<and> truthy (js_prop b ''deadline'')")
          (simp_all add: PostNotes post_notes_created post_notes_rejected)
    qed
  next
    case PutNotesId
    show ?thesis
    proof (cases "req_json req")
      case None
      with assms(2) show ?thesis by (simp add: PutNotesId put_notes_id_def)
    next
      case (Some b)
      show ?thesis
      proof (cases "truthy (map_of (table s) (note_key u (param_id req)))")
        case False
        with assms(2) Some same show ?thesis
          by (simp add: PutNotesId put_notes_id_not_found)
      next
        case True
        then obtain ex where "map_of (table s) (note_key u (param_id req)) = Some ex"
          and "truthy_json ex"
          by (cases "map_of (table s) (note_key u (param_id req))") auto
        with assms(2) Some same show ?thesis
          by (simp add: PutNotesId put_notes_id_found)
      qed
    qed
  next
    case DeleteNotesId
    with assms(2) same show ?thesis
      by (cases "truthy (map_of (table s) (note_key u (param_id req)))")
        (simp_all add: delete_notes_id_not_found delete_notes_id_found)
  qed
qed

lemma two_users_each_create:
  assumes a: "authorize ea reqa = Inr u" "req_json reqa = Some ba"
      "truthy (js_prop ba ''title'')" "truthy (js_prop ba ''deadline'')"
    and b: "authorize eb reqb = Inr v" "req_json reqb = Some bb"
      "truthy (js_prop bb ''title'')" "truthy (js_prop bb ''deadline'')"
    and ids: "randomUUID ea \<noteq> []" "randomUUID eb \<noteq> []"
    and users: "CHR '':'' \<notin> set (user_id u)" "CHR '':'' \<notin> set (user_id v)"
      "user_id v \<noteq> user_id u"
    and empty: "table s = []"
    and lists: "authorize eu ru = Inr u" "authorize ev rv = Inr v"
  shows "\<exists>na nb.
           fst (post_notes ea reqa s) = json_response (JObj [(''note'', na)]) 200 \<and>
           fst (post_notes eb reqb (snd (post_notes ea reqa s))) =
             json_response (JObj [(''note'', nb)]) 200 \<and>
           fst (get_notes eu ru (snd (post_notes eb reqb (snd (post_notes ea reqa s))))) =
             json_response (JObj [(''notes'', JArr [na])]) 200 \<and>
           fst (get_notes ev rv (snd (post_notes eb reqb (snd (post_notes ea reqa s))))) =
             json_response (JObj [(''notes'', JArr [nb])]) 200"
proof -
  let ?na = "to_json (new_note ea u (js_prop ba ''title'') (js_prop ba ''text'')
                        (js_prop ba ''tags'') (js_prop ba ''deadline''))"
  let ?nb = "to_json (new_note eb v (js_prop bb ''title'') (js_prop bb ''text'')
                        (js_prop bb ''tags'') (js_prop bb ''deadline''))"
  let ?ka = "note_key u (randomUUID ea)" and ?kb = "note_key v (randomUUID eb)"
  let ?s1 = "snd (post_notes ea reqa s)"
  let ?s2 = "snd (post_notes eb reqb ?s1)"
  note ca = post_notes_created [OF a]
  note cb = post_notes_created [OF b]
  have t1: "table ?s1 = [(?ka, ?na)]"
    by (simp add: ca empty)
  have t2: "table ?s2 = AList.update ?kb ?nb [(?ka, ?na)]"
    by (simp add: cb t1)
  have va: "valid_note ?na"
    using a(3) ids(1) by (rule valid_new_note)
  have vb: "valid_note ?nb"
    using b(3) ids(2) by (rule valid_new_note)
  have pa: "prefix (note_prefix u) ?ka" and pb: "prefix (note_prefix v) ?kb"
    by (rule prefix_note_key)+
  from other_namespace [OF users] pa have na: "\<not> prefix (note_prefix v) ?ka"
    by blast
  from other_namespace [OF users(2,1) users(3) [symmetric]] pb
  have nb: "\<not> prefix (note_prefix u) ?kb"
    by blast
  from pb na have neq: "?kb \<noteq> ?ka"
    by auto
  have "under_prefix (note_prefix u) (table ?s2) = under_prefix (note_prefix u) [(?ka, ?na)]"
    unfolding t2 by (rule under_prefix_update_other [OF nb])
  also have "\<dots> = [(?ka, ?na)]"
    using pa by (simp add: under_prefix_def)
  finally have ua: "under_prefix (note_prefix u) (table ?s2) = [(?ka, ?na)]" .
  have "?kb \<notin> fst ` set [(?ka, ?na)]"
    using neq by simp
  then have "under_prefix (note_prefix v) (table ?s2) =
      under_prefix (note_prefix v) [(?ka, ?na)] @ [(?kb, ?nb)]"
    unfolding t2 by (rule under_prefix_update_fresh [OF pb])
  also have "under_prefix (note_prefix v) [(?ka, ?na)] = []"
    using na by (simp add: under_prefix_def)
  finally have ub: "under_prefix (note_prefix v) (table ?s2) = [(?kb, ?nb)]"
    by simp
  have "fst (post_notes ea reqa s) = json_response (JObj [(''note'', ?na)]) 200"
    by (simp add: ca)
  moreover have "fst (post_notes eb reqb ?s1) = json_response (JObj [(''note'', ?nb)]) 200"
    by (simp add: cb)
  moreover have "fst (get_notes eu ru ?s2) = json_response (JObj [(''notes'', JArr [?na])]) 200"
    by (simp add: get_notes_authorized [OF lists(1)] ua va)
  moreover have "fst (get_notes ev rv ?s2) = json_response (JObj [(''notes'', JArr [?nb])]) 200"
    by (simp add: get_notes_authorized [OF lists(2)] ub vb)
  ultimately show ?thesis by blast
qed

section \<open>The example users and stores\<close>

lemma authorize_alice:
  "authorize (example_env uu tt) (bearer ''token-a'' n b) = Inr alice"
  by (simp add: authorize_def access_token_def bearer_def nth_opt_def example_env_def)

lemma authorize_bob:
  "authorize (example_env uu tt) (bearer ''token-b'' n b) = Inr bob"
  by (simp add: authorize_def access_token_def bearer_def nth_opt_def example_env_def)

lemma rent_store_n1:
  "map_of (table rent_store) (note_key alice ''n1'') = Some rent_note"
  by (simp add: rent_store_def note_key_def alice_def)

lemma rent_store_n2:
  "map_of (table rent_store) (note_key alice ''n2'') = None"
  by (simp add: rent_store_def note_key_def alice_def)

lemma truthy_rent_note: "truthy_json rent_note"
  by (simp add: rent_note_def)

lemma valid_rent_note: "valid_note rent_note"
  by (simp add: valid_note_def rent_note_def js_prop_def)

lemma invalid_untitled_note: "\<not> valid_note untitled_note"
  by (simp add: valid_note_def untitled_note_def js_prop_def)

lemma alice_lists_rent_store:
  "payload (fst (get_notes (example_env uu tt) (bearer ''token-a'' n b) rent_store)) =
     JObj [(''notes'', JArr [rent_note])]"
  by (simp add: get_notes_authorized [OF authorize_alice] json_response_simps under_prefix_def
      note_prefix_def alice_def rent_store_def valid_rent_note)

lemma alice_lists_mixed_store:
  "fst (get_notes (example_env uu tt) (bearer ''token-a'' n b) mixed_store) =
     json_response (JObj [(''notes'', JArr [rent_note])]) 200"
  by (simp add: get_notes_authorized [OF authorize_alice] under_prefix_def note_prefix_def
      alice_def mixed_store_def valid_rent_note invalid_untitled_note
      valid_note_def [of "JObj [(''userId'', JStr ''alice'')]"] js_prop_def)

section \<open>Ownership of notes\<close>

text \<open>
  C1. Let a notes operation (list, create, update, delete) run for the user the bearer
  token resolves to. The user, and so the namespace, does not depend on the body of the
  request. Every key the operation hands to the store is the prefix
  \<^verbatim>\<open>user:<userId>:note:\<close> of that user or a key under it, made from the user's id and the
  path parameter or the identifier the server drew. What is stored under any other key is
  unchanged, and the response is the same for every store that agrees on the user's own
  namespace. For another user (user ids are free of colons, as the provider's identifiers
  are), the entries of that user's namespace and the result of that user's list are
  unchanged. When two users each create a note in an empty store, the list of each returns
  the own note only.
\<close>

theorem notes_namespace_isolation:
  assumes "notes_route rt" and "authorize e req = Inr u"
  shows "(\<forall>b. authorize e (req\<lparr>body := b\<rparr>) = Inr u) \<and>
         set (map access_key (new_accesses s (snd (app e rt req s)))) \<subseteq>
           {note_prefix u, note_key u (param_id req), note_key u (randomUUID e)} \<and>
         (\<forall>a\<in>set (new_accesses s (snd (app e rt req s))).
            prefix (note_prefix u) (access_key a)) \<and>
         (\<forall>k. \<not> prefix (note_prefix u) k \<longrightarrow>
            map_of (table (snd (app e rt req s))) k = map_of (table s) k) \<and>
         (\<forall>s2. under_prefix (note_prefix u) (table s2) = under_prefix (note_prefix u) (table s) \<longrightarrow>
            fst (app e rt req s2) = fst (app e rt req s)) \<and>
         (\<forall>v. CHR '':'' \<notin> set (user_id u) \<and> CHR '':'' \<notin> set (user_id v) \<and>
              user_id v \<noteq> user_id u \<longrightarrow>
            under_prefix (note_prefix v) (table (snd (app e rt req s))) =
              under_prefix (note_prefix v) (table s) \<and>
            (\<forall>e' req'. authorize e' req' = Inr v \<longrightarrow>
               fst (get_notes e' req' (snd (app e rt req s))) = fst (get_notes e' req' s))) \<and>
         (\<forall>b v eb reqb bb eu ru ev rv.
            req_json req = Some b \<and> truthy (js_prop b ''title'') \<and>
            truthy (js_prop b ''deadline'') \<and> randomUUID e \<noteq> [] \<and>
            authorize eb reqb = Inr v \<and> req_json reqb = Some bb \<and>
            truthy (js_prop bb ''title'') \<and> truthy (js_prop bb ''deadline'') \<and>
            randomUUID eb \<noteq> [] \<and>
            CHR '':'' \<notin> set (user_id u) \<and> CHR '':'' \<notin> set (user_id v) \<and>
            user_id v \<noteq> user_id u \<and> table s = [] \<and>
            authorize eu ru = Inr u \<and> authorize ev rv = Inr v \<longrightarrow>
            (\<exists>na nb.
               fst (post_notes e req s) = json_response (JObj [(''note'', na)]) 200 \<and>
               fst (post_notes eb reqb (snd (post_notes e req s))) =
                 json_response (JObj [(''note'', nb)]) 200 \<and>
               fst (get_notes eu ru (snd (post_notes eb reqb (snd (post_notes e req s))))) =
                 json_response (JObj [(''notes'', JArr [na])]) 200 \<and>
               fst (get_notes ev rv (snd (post_notes eb reqb (snd (post_notes e req s))))) =
                 json_response (JObj [(''notes'', JArr [nb])]) 200))"
proof (intro conjI allI impI ballI)
  fix b
  show "authorize e (req\<lparr>body := b\<rparr>) = Inr u"
    by (simp only: authorize_ignores_body assms(2))
next
  show keys: "set (map access_key (new_accesses s (snd (app e rt req s)))) \<subseteq>
      {note_prefix u, note_key u (param_id req), note_key u (randomUUID e)}"
    using assms by (rule notes_accesses)
  fix a
  assume "a \<in> set (new_accesses s (snd (app e rt req s)))"
  with keys have "access_key a \<in>
      {note_prefix u, note_key u (param_id req), note_key u (randomUUID e)}"
    by auto
  then show "prefix (note_prefix u) (access_key a)"
    by (auto simp: prefix_note_key)
next
  fix k
  assume "\<not> prefix (note_prefix u) k"
  with assms show "map_of (table (snd (app e rt req s))) k = map_of (table s) k"
    by (rule notes_leave_other_keys)
next
  fix s2 :: kv_state
  assume "under_prefix (note_prefix u) (table s2) = under_prefix (note_prefix u) (table s)"
  with assms show "fst (app e rt req s2) = fst (app e rt req s)"
    by (rule notes_read_own_namespace)
next
  fix v :: user
  assume "CHR '':'' \<notin> set (user_id u) \<and> CHR '':'' \<notin> set (user_id v) \<and> user_id v \<noteq> user_id u"
  then have "\<forall>k. prefix (note_prefix u) k \<longrightarrow> \<not> prefix (note_prefix v) k"
    by (intro other_namespace) simp_all
  with assms show same: "under_prefix (note_prefix v) (table (snd (app e rt req s))) =
      under_prefix (note_prefix v) (table s)"
    by (rule notes_leave_other_namespaces)
  fix e' req'
  assume "authorize e' req' = Inr v"
  then show "fst (get_notes e' req' (snd (app e rt req s))) = fst (get_notes e' req' s)"
    by (simp add: get_notes_authorized same)
next
  fix b v eb reqb bb eu ru ev rv
  assume "req_json req = Some b \<and> truthy (js_prop b ''title'') \<and>
      truthy (js_prop b ''deadline'') \<and> randomUUID e \<noteq> [] \<and>
      authorize eb reqb = Inr v \<and> req_json reqb = Some bb \<and>
      truthy (js_prop bb ''title'') \<and> truthy (js_prop bb ''deadline'') \<and>
      randomUUID eb \<noteq> [] \<and>
      CHR '':'' \<notin> set (user_id u) \<and> CHR '':'' \<notin> set (user_id v) \<and>
      user_id v \<noteq> user_id u \<and> table s = [] \<and>
      authorize eu ru = Inr u \<and> authorize ev rv = Inr v"
  with assms(2) show "\<exists>na nb.
      fst (post_notes e req s) = json_response (JObj [(''note'', na)]) 200 \<and>
      fst (post_notes eb reqb (snd (post_notes e req s))) =
        json_response (JObj [(''note'', nb)]) 200 \<and>
      fst (get_notes eu ru (snd (post_notes eb reqb (snd (post_notes e req s))))) =
        json_response (JObj [(''notes'', JArr [na])]) 200 \<and>
      fst (get_notes ev rv (snd (post_notes eb reqb (snd (post_notes e req s))))) =
        json_response (JObj [(''notes'', JArr [nb])]) 200"
    by (elim conjE) (rule two_users_each_create; assumption)
qed

theorem notes_namespace_isolation_witness:
  "notes_route DeleteNotesId \<and>
   authorize (example_env ''u1'' ''t1'') (bearer ''token-b'' ''n1'' None) = Inr bob \<and>
   CHR '':'' \<notin> set (user_id bob) \<and> CHR '':'' \<notin> set (user_id alice) \<and>
   user_id alice \<noteq> user_id bob \<and>
   authorize (example_env ''u2'' ''t2'') (bearer ''token-a'' [] None) = Inr alice \<and>
   set (map access_key (new_accesses mixed_store (snd (app (example_env ''u1'' ''t1'')
        DeleteNotesId (bearer ''token-b'' ''n1'' None) mixed_store)))) \<subseteq>
     {note_prefix bob, note_key bob (param_id (bearer ''token-b'' ''n1'' None)),
      note_key bob (randomUUID (example_env ''u1'' ''t1''))} \<and>
   under_prefix (note_prefix alice) (table (snd (app (example_env ''u1'' ''t1'') DeleteNotesId
        (bearer ''token-b'' ''n1'' None) mixed_store))) =
     under_prefix (note_prefix alice) (table mixed_store) \<and>
   fst (get_notes (example_env ''u2'' ''t2'') (bearer ''token-a'' [] None)
        (snd (app (example_env ''u1'' ''t1'') DeleteNotesId (bearer ''token-b'' ''n1'' None)
           mixed_store))) = json_response (JObj [(''notes'', JArr [rent_note])]) 200 \<and>
   notes_route PostNotes \<and>
   authorize (example_env ''n7'' ''t7'') (bearer ''token-a'' [] (Some forged_body)) = Inr alice \<and>
   req_json (bearer ''token-a'' [] (Some forged_body)) = Some forged_body \<and>
   js_prop forged_body ''userId'' = Some (JStr ''bob'') \<and>
   authorize (example_env ''m7'' ''t8'') (bearer ''token-b'' [] (Some retitle_body)) = Inr bob \<and>
   req_json (bearer ''token-b'' [] (Some retitle_body)) = Some retitle_body \<and>
   table empty_store = [] \<and>
   (\<exists>na nb.
      fst (post_notes (example_env ''n7'' ''t7'') (bearer ''token-a'' [] (Some forged_body))
         empty_store) = json_response (JObj [(''note'', na)]) 200 \<and>
      fst (post_notes (example_env ''m7'' ''t8'') (bearer ''token-b'' [] (Some retitle_body))
         (snd (post_notes (example_env ''n7'' ''t7'') (bearer ''token-a'' [] (Some forged_body))
            empty_store))) = json_response (JObj [(''note'', nb)]) 200 \<and>
      fst (get_notes (example_env ''u2'' ''t2'') (bearer ''token-a'' [] None)
         (snd (post_notes (example_env ''m7'' ''t8'') (bearer ''token-b'' [] (Some retitle_body))
            (snd (post_notes (example_env ''n7'' ''t7'') (bearer ''token-a'' [] (Some forged_body))
               empty_store))))) = json_response (JObj [(''notes'', JArr [na])]) 200 \<and>
      fst (get_notes (example_env ''u1'' ''t1'') (bearer ''token-b'' [] None)
         (snd (post_notes (example_env ''m7'' ''t8'') (bearer ''token-b'' [] (Some retitle_body))
            (snd (post_notes (example_env ''n7'' ''t7'') (bearer ''token-a'' [] (Some forged_body))
               empty_store))))) = json_response (JObj [(''notes'', JArr [nb])]) 200)"
proof -
  let ?e1 = "example_env ''u1'' ''t1''" and ?e2 = "example_env ''u2'' ''t2''"
  let ?ea = "example_env ''n7'' ''t7''" and ?eb = "example_env ''m7'' ''t8''"
  let ?del = "bearer ''token-b'' ''n1'' None"
  let ?ra = "bearer ''token-a'' [] (Some forged_body)"
  let ?rb = "bearer ''token-b'' [] (Some retitle_body)"
  have r1: "notes_route DeleteNotesId" and r2: "notes_route PostNotes"
    by simp_all
  have ab: "authorize ?e1 ?del = Inr bob"
    and lb: "authorize ?e1 (bearer ''token-b'' [] None) = Inr bob"
    and cb: "authorize ?eb ?rb = Inr bob"
    by (rule authorize_bob)+
  have la: "authorize ?e2 (bearer ''token-a'' [] None) = Inr alice"
    and ca: "authorize ?ea ?ra = Inr alice"
    by (rule authorize_alice)+
  have c: "CHR '':'' \<notin> set (user_id bob)" "CHR '':'' \<notin> set (user_id alice)"
    and d: "user_id alice \<noteq> user_id bob" "user_id bob \<noteq> user_id alice"
    by (simp_all add: alice_def bob_def)
  have ja: "req_json ?ra = Some forged_body" and jb: "req_json ?rb = Some retitle_body"
    by (simp_all add: req_json_def bearer_def forged_body_def retitle_body_def)
  have f: "truthy (js_prop forged_body ''title'')" "truthy (js_prop forged_body ''deadline'')"
    "truthy (js_prop retitle_body ''title'')" "truthy (js_prop retitle_body ''deadline'')"
    "js_prop forged_body ''userId'' = Some (JStr ''bob'')"
    by (simp_all add: js_prop_def forged_body_def retitle_body_def)
  have x: "randomUUID ?ea \<noteq> []" "randomUUID ?eb \<noteq> []"
    by (simp_all add: example_env_def)
  have e: "table empty_store = []"
    by (simp add: empty_store_def)
  note bob_deletes = notes_namespace_isolation [OF r1 ab, of mixed_store]
  note own = bob_deletes [THEN conjunct2, THEN conjunct1]
  note others = bob_deletes [THEN conjunct2, THEN conjunct2, THEN conjunct2, THEN conjunct2,
      THEN conjunct2, THEN conjunct1, rule_format, of alice, OF conjI [OF c(1) conjI [OF c(2) d(1)]]]
  from others have kept: "under_prefix (note_prefix alice)
        (table (snd (app ?e1 DeleteNotesId ?del mixed_store))) =
      under_prefix (note_prefix alice) (table mixed_store)"
    by (rule conjunct1)
  from others [THEN conjunct2, rule_format, OF la]
  have listed: "fst (get_notes ?e2 (bearer ''token-a'' [] None)
        (snd (app ?e1 DeleteNotesId ?del mixed_store))) =
      json_response (JObj [(''notes'', JArr [rent_note])]) 200"
    by (simp only: alice_lists_mixed_store)
  note scenario = notes_namespace_isolation [OF r2 ca, of empty_store,
      THEN conjunct2, THEN conjunct2, THEN conjunct2, THEN conjunct2, THEN conjunct2,
      THEN conjunct2, rule_format]
  have "req_json ?ra = Some forged_body \<and> truthy (js_prop forged_body ''title'') \<and>
      truthy (js_prop forged_body ''deadline'') \<and> randomUUID ?ea \<noteq> [] \<and>
      authorize ?eb ?rb = Inr bob \<and> req_json ?rb = Some retitle_body \<and>
      truthy (js_prop retitle_body ''title'') \<and> truthy (js_prop retitle_body ''deadline'') \<and>
      randomUUID ?eb \<noteq> [] \<and>
      CHR '':'' \<notin> set (user_id alice) \<and> CHR '':'' \<notin> set (user_id bob) \<and>
      user_id bob \<noteq> user_id alice \<and> table empty_store = [] \<and>
      authorize ?e2 (bearer ''token-a'' [] None) = Inr alice \<and>
      authorize ?e1 (bearer ''token-b'' [] None) = Inr bob"
    using ja jb f(1-4) x cb c d(2) e la lb by (intro conjI)
  note two = scenario [OF this]
  from r1 ab c d(1) la own kept listed r2 ca ja f(5) cb jb e two show ?thesis
    by (intro conjI)
qed

section \<open>Authorization before storage\<close>

text \<open>
  C2. On every protected endpoint (profile get, password change, notes list, create,
  update, delete), a request whose bearer token is missing or does not resolve to a user
  is answered with status 401, and the store is left as it was: its table is unchanged and
  its log of accesses has no new entry, so nothing was read or written before the answer.
\<close>

theorem unauthorized_before_storage:
  assumes "no_valid_token e req"
  shows "status (fst (app e rt req s)) = 401 \<and> snd (app e rt req s) = s"
proof -
  from assms obtain r where "authorize e req = Inl r" and "status r = 401"
    using no_valid_token_authorize by blast
  then show ?thesis by (simp add: app_unauthorized)
qed

theorem unauthorized_before_storage_witness:
  "no_valid_token (example_env ''u1'' ''t1'')
     \<lparr>authorization = None, param_id = ''n1'', body = Some retitle_body\<rparr> \<and>
   no_valid_token (example_env ''u1'' ''t1'') (bearer ''stale'' ''n1'' None) \<and>
   status (fst (app (example_env ''u1'' ''t1'') PutNotesId
     \<lparr>authorization = None, param_id = ''n1'', body = Some retitle_body\<rparr> rent_store)) = 401 \<and>
   snd (app (example_env ''u1'' ''t1'') PutNotesId
     \<lparr>authorization = None, param_id = ''n1'', body = Some retitle_body\<rparr> rent_store) = rent_store \<and>
   status (fst (app (example_env ''u1'' ''t1'') DeleteNotesId (bearer ''stale'' ''n1'' None)
     rent_store)) = 401 \<and>
   snd (app (example_env ''u1'' ''t1'') DeleteNotesId (bearer ''stale'' ''n1'' None) rent_store) =
     rent_store"
proof -
  have h1: "no_valid_token (example_env ''u1'' ''t1'')
      \<lparr>authorization = None, param_id = ''n1'', body = Some retitle_body\<rparr>"
    by (simp add: no_valid_token_def access_token_def)
  have h2: "no_valid_token (example_env ''u1'' ''t1'') (bearer ''stale'' ''n1'' None)"
    by (simp add: no_valid_token_def access_token_def bearer_def nth_opt_def example_env_def)
  from unauthorized_before_storage [OF h1, of PutNotesId rent_store]
    unauthorized_before_storage [OF h2, of DeleteNotesId rent_store] h1 h2
  show ?thesis by (intro conjI) (erule conjunct1 conjunct2 asm_rl)+
qed

section \<open>Update\<close>

text \<open>
  C3. For an authenticated user and a note id, with a request body that can be read:
  update answers 404 (Note not found) and leaves the table as it is when no note is stored
  at that id under the user's namespace. When a note is stored there, the answer is 200
  with the updated note, which is also what the key holds afterwards; the updated note
  has the stored note's id, userId and createdAt, and its value for every other property
  except title, text, tags and deadline; a title or text the request supplies, and tags or
  a deadline it supplies with a truthy value, are those of the updated note. Over any
  sequence of update requests, of any users, the id, userId and createdAt stored under any
  key stay what they were.
\<close>

theorem update_note_merges:
  assumes "authorize e req = Inr u" and "req_json req = Some b"
  shows "(\<not> truthy (map_of (table s) (note_key u (param_id req))) \<longrightarrow>
            fst (put_notes_id e req s) = error_response ''Note not found'' 404 \<and>
            status (fst (put_notes_id e req s)) = 404 \<and>
            table (snd (put_notes_id e req s)) = table s) \<and>
         (\<forall>ex. map_of (table s) (note_key u (param_id req)) = Some ex \<and> truthy_json ex \<longrightarrow>
            (\<exists>n. fst (put_notes_id e req s) = json_response (JObj [(''note'', n)]) 200 \<and>
                 table (snd (put_notes_id e req s)) =
                   AList.update (note_key u (param_id req)) n (table s) \<and>
                 map_of (table (snd (put_notes_id e req s))) (note_key u (param_id req)) = Some n \<and>
                 js_prop n ''id'' = js_prop ex ''id'' \<and>
                 js_prop n ''userId'' = js_prop ex ''userId'' \<and>
                 js_prop n ''createdAt'' = js_prop ex ''createdAt'' \<and>
                 (\<forall>f. f \<notin> {''title'', ''text'', ''tags'', ''deadline''} \<longrightarrow>
                    js_prop n f = js_prop ex f) \<and>
                 (\<forall>v. js_prop b ''title'' = Some v \<longrightarrow> js_prop n ''title'' = Some v) \<and>
                 (\<forall>v. js_prop b ''text'' = Some v \<longrightarrow> js_prop n ''text'' = Some v) \<and>
                 (\<forall>v. js_prop b ''tags'' = Some v \<and> truthy_json v \<longrightarrow>
                    js_prop n ''tags'' = Some v) \<and>
                 (\<forall>v. js_prop b ''deadline'' = Some v \<and> truthy_json v \<longrightarrow>
                    js_prop n ''deadline'' = Some v))) \<and>
         (\<forall>cs k. \<forall>f\<in>{''id'', ''userId'', ''createdAt''}.
            stored_field (put_all cs s) k f = stored_field s k f)"
proof (intro conjI allI impI ballI)
  assume "\<not> truthy (map_of (table s) (note_key u (param_id req)))"
  with assms have eq: "put_notes_id e req s =
      (error_response ''Note not found'' 404,
       s\<lparr>log := log s @ [KvGet (note_key u (param_id req))]\<rparr>)"
    by (rule put_notes_id_not_found)
  show "fst (put_notes_id e req s) = error_response ''Note not found'' 404"
    by (simp add: eq)
  show "status (fst (put_notes_id e req s)) = 404"
    by (simp add: eq error_response_simps)
  show "table (snd (put_notes_id e req s)) = table s"
    by (simp add: eq)
next
  fix ex
  assume "map_of (table s) (note_key u (param_id req)) = Some ex \<and> truthy_json ex"
  then have ex: "map_of (table s) (note_key u (param_id req)) = Some ex" and t: "truthy_json ex"
    by simp_all
  let ?n = "to_json (updated_note ex (js_prop b ''title'') (js_prop b ''text'')
                       (js_prop b ''tags'') (js_prop b ''deadline''))"
  note eq = put_notes_id_found [OF assms ex t]
  show "\<exists>n. fst (put_notes_id e req s) = json_response (JObj [(''note'', n)]) 200 \<and>
      table (snd (put_notes_id e req s)) = AList.update (note_key u (param_id req)) n (table s) \<and>
      map_of (table (snd (put_notes_id e req s))) (note_key u (param_id req)) = Some n \<and>
      js_prop n ''id'' = js_prop ex ''id'' \<and>
      js_prop n ''userId'' = js_prop ex ''userId'' \<and>
      js_prop n ''createdAt'' = js_prop ex ''createdAt'' \<and>
      (\<forall>f. f \<notin> {''title'', ''text'', ''tags'', ''deadline''} \<longrightarrow> js_prop n f = js_prop ex f) \<and>
      (\<forall>v. js_prop b ''title'' = Some v \<longrightarrow> js_prop n ''title'' = Some v) \<and>
      (\<forall>v. js_prop b ''text'' = Some v \<longrightarrow> js_prop n ''text'' = Some v) \<and>
      (\<forall>v. js_prop b ''tags'' = Some v \<and> truthy_json v \<longrightarrow> js_prop n ''tags'' = Some v) \<and>
      (\<forall>v. js_prop b ''deadline'' = Some v \<and> truthy_json v \<longrightarrow> js_prop n ''deadline'' = Some v)"
    by (rule exI [of _ ?n]) (simp add: eq update_conv' js_prop_updated_note js_or_def)
next
  fix cs k f
  assume "f \<in> {''id'', ''userId'', ''createdAt''}"
  then have "f \<notin> {''title'', ''text'', ''tags'', ''deadline''}" by auto
  then show "stored_field (put_all cs s) k f = stored_field s k f"
    by (rule put_all_keeps_field)
qed

theorem update_note_merges_witness:
  "authorize (example_env ''u1'' ''t1'') (bearer ''token-a'' ''n1'' (Some retitle_body)) = Inr alice \<and>
   req_json (bearer ''token-a'' ''n1'' (Some retitle_body)) = Some retitle_body \<and>
   map_of (table rent_store) (note_key alice ''n1'') = Some rent_note \<and> truthy_json rent_note \<and>
   (\<exists>n. fst (put_notes_id (example_env ''u1'' ''t1'') (bearer ''token-a'' ''n1'' (Some retitle_body))
              rent_store) = json_response (JObj [(''note'', n)]) 200 \<and>
        map_of (table (snd (put_notes_id (example_env ''u1'' ''t1'')
              (bearer ''token-a'' ''n1'' (Some retitle_body)) rent_store))) (note_key alice ''n1'') = Some n \<and>
        js_prop n ''id'' = Some (JStr ''n1'') \<and>
        js_prop n ''userId'' = Some (JStr ''alice'') \<and>
        js_prop n ''createdAt'' = Some (JStr ''2024-12-01T10:00:00.000Z'') \<and>
        js_prop n ''title'' = Some (JStr ''Pay rent (late)'')) \<and>
   \<not> truthy (map_of (table rent_store) (note_key alice ''n2'')) \<and>
   status (fst (put_notes_id (example_env ''u1'' ''t1'') (bearer ''token-a'' ''n2'' (Some retitle_body))
              rent_store)) = 404"
proof -
  let ?e = "example_env ''u1'' ''t1''"
  have a1: "authorize ?e (bearer ''token-a'' ''n1'' (Some retitle_body)) = Inr alice"
    and a2: "authorize ?e (bearer ''token-a'' ''n2'' (Some retitle_body)) = Inr alice"
    by (rule authorize_alice)+
  have b1: "req_json (bearer ''token-a'' ''n1'' (Some retitle_body)) = Some retitle_body"
    and b2: "req_json (bearer ''token-a'' ''n2'' (Some retitle_body)) = Some retitle_body"
    by (simp_all add: req_json_def bearer_def retitle_body_def)
  have p1: "param_id (bearer ''token-a'' ''n1'' (Some retitle_body)) = ''n1''"
    and p2: "param_id (bearer ''token-a'' ''n2'' (Some retitle_body)) = ''n2''"
    by (simp_all add: bearer_def)
  have f: "js_prop rent_note ''id'' = Some (JStr ''n1'')"
    "js_prop rent_note ''userId'' = Some (JStr ''alice'')"
    "js_prop rent_note ''createdAt'' = Some (JStr ''2024-12-01T10:00:00.000Z'')"
    "js_prop retitle_body ''title'' = Some (JStr ''Pay rent (late)'')"
    by (simp_all add: js_prop_def rent_note_def retitle_body_def)
  note found = update_note_merges [OF a1 b1, of rent_store, unfolded p1,
      THEN conjunct2, THEN conjunct1, rule_format, of rent_note,
      OF conjI [OF rent_store_n1 truthy_rent_note]]
  note missing = update_note_merges [OF a2 b2, of rent_store, unfolded p2,
      THEN conjunct1, rule_format]
  have none: "\<not> truthy (map_of (table rent_store) (note_key alice ''n2''))"
    by (simp add: rent_store_n2)
  from found obtain n where
    n: "fst (put_notes_id ?e (bearer ''token-a'' ''n1'' (Some retitle_body)) rent_store) =
          json_response (JObj [(''note'', n)]) 200"
      "map_of (table (snd (put_notes_id ?e (bearer ''token-a'' ''n1'' (Some retitle_body))
          rent_store))) (note_key alice ''n1'') = Some n"
      "js_prop n ''id'' = js_prop rent_note ''id''"
      "js_prop n ''userId'' = js_prop rent_note ''userId''"
      "js_prop n ''createdAt'' = js_prop rent_note ''createdAt''"
      "\<forall>v. js_prop retitle_body ''title'' = Some v \<longrightarrow> js_prop n ''title'' = Some v"
    by (elim exE conjE) (rule that)
  have ex: "\<exists>n. fst (put_notes_id ?e (bearer ''token-a'' ''n1'' (Some retitle_body)) rent_store) =
          json_response (JObj [(''note'', n)]) 200 \<and>
        map_of (table (snd (put_notes_id ?e (bearer ''token-a'' ''n1'' (Some retitle_body))
          rent_store))) (note_key alice ''n1'') = Some n \<and>
        js_prop n ''id'' = Some (JStr ''n1'') \<and>
        js_prop n ''userId'' = Some (JStr ''alice'') \<and>
        js_prop n ''createdAt'' = Some (JStr ''2024-12-01T10:00:00.000Z'') \<and>
        js_prop n ''title'' = Some (JStr ''Pay rent (late)'')"
    using n f by (intro exI [of _ n]) simp
  from missing [OF none] have "status (fst (put_notes_id ?e
      (bearer ''token-a'' ''n2'' (Some retitle_body)) rent_store)) = 404"
    by (rule conjunct2 [THEN conjunct1])
  with a1 b1 rent_store_n1 truthy_rent_note ex none show ?thesis
    by (intro conjI)
qed

section \<open>Create\<close>

text \<open>
  C4. For an authenticated request whose body can be read, create answers 400 whenever the
  title is absent and whenever the deadline is absent, absent meaning what the handler
  tests with \<^verbatim>\<open>!title\<close> and \<^verbatim>\<open>!deadline\<close>: not supplied or a falsy value such as the empty
  string; the store is not touched then. With both present it answers 200, the note
  carries the id the server drew and the time of the server as \<^verbatim>\<open>createdAt\<close>, the user's
  id, the title and deadline of the request, it is stored under the user's namespace at
  that id, and the note of the response is the stored one.
\<close>

theorem create_note_validates_then_stores:
  assumes "authorize e req = Inr u" and "req_json req = Some b"
  shows "(\<not> truthy (js_prop b ''title'') \<longrightarrow>
            post_notes e req s = (error_response ''Title is required'' 400, s)) \<and>
         (\<not> truthy (js_prop b ''deadline'') \<longrightarrow>
            status (fst (post_notes e req s)) = 400 \<and> snd (post_notes e req s) = s) \<and>
         (truthy (js_prop b ''title'') \<and> \<not> truthy (js_prop b ''deadline'') \<longrightarrow>
            post_notes e req s = (error_response ''Deadline is required'' 400, s)) \<and>
         (truthy (js_prop b ''title'') \<and> truthy (js_prop b ''deadline'') \<longrightarrow>
            (\<exists>n. fst (post_notes e req s) = json_response (JObj [(''note'', n)]) 200 \<and>
                 table (snd (post_notes e req s)) =
                   AList.update (note_key u (randomUUID e)) n (table s) \<and>
                 map_of (table (snd (post_notes e req s))) (note_key u (randomUUID e)) = Some n \<and>
                 prefix (note_prefix u) (note_key u (randomUUID e)) \<and>
                 js_prop n ''id'' = Some (JStr (randomUUID e)) \<and>
                 js_prop n ''createdAt'' = Some (JStr (toISOString e)) \<and>
                 js_prop n ''userId'' = Some (JStr (user_id u)) \<and>
                 js_prop n ''title'' = js_prop b ''title'' \<and>
                 js_prop n ''deadline'' = js_prop b ''deadline'' \<and>
                 js_prop n ''text'' = Some (js_or (js_prop b ''text'') (JStr [])) \<and>
                 js_prop n ''tags'' = Some (js_or (js_prop b ''tags'') (JArr []))))"
proof (intro conjI impI)
  assume "\<not> truthy (js_prop b ''title'')"
  with assms show "post_notes e req s = (error_response ''Title is required'' 400, s)"
    by (simp add: post_notes_rejected)
next
  assume "\<not> truthy (js_prop b ''deadline'')"
  with assms have "post_notes e req s =
      (error_response (if \<not> truthy (js_prop b ''title'') then ''Title is required''
         else ''Deadline is required'') 400, s)"
    by (simp add: post_notes_rejected)
  then show "status (fst (post_notes e req s)) = 400" and "snd (post_notes e req s) = s"
    by (simp_all add: error_response_simps)
next
  assume "truthy (js_prop b ''title'') \<and> \<not> truthy (js_prop b ''deadline'')"
  with assms show "post_notes e req s = (error_response ''Deadline is required'' 400, s)"
    by (simp add: post_notes_rejected)
next
  assume "truthy (js_prop b ''title'') \<and> truthy (js_prop b ''deadline'')"
  then have t: "truthy (js_prop b ''title'')" and d: "truthy (js_prop b ''deadline'')"
    by simp_all
  let ?n = "to_json (new_note e u (js_prop b ''title'') (js_prop b ''text'')
                       (js_prop b ''tags'') (js_prop b ''deadline''))"
  note eq = post_notes_created [OF assms t d]
  show "\<exists>n. fst (post_notes e req s) = json_response (JObj [(''note'', n)]) 200 \<and>
      table (snd (post_notes e req s)) = AList.update (note_key u (randomUUID e)) n (table s) \<and>
      map_of (table (snd (post_notes e req s))) (note_key u (randomUUID e)) = Some n \<and>
      prefix (note_prefix u) (note_key u (randomUUID e)) \<and>
      js_prop n ''id'' = Some (JStr (randomUUID e)) \<and>
      js_prop n ''createdAt'' = Some (JStr (toISOString e)) \<and>
      js_prop n ''userId'' = Some (JStr (user_id u)) \<and>
      js_prop n ''title'' = js_prop b ''title'' \<and>
      js_prop n ''deadline'' = js_prop b ''deadline'' \<and>
      js_prop n ''text'' = Some (js_or (js_prop b ''text'') (JStr [])) \<and>
      js_prop n ''tags'' = Some (js_or (js_prop b ''tags'') (JArr []))"
    by (rule exI [of _ ?n])
      (simp add: eq update_conv' js_prop_new_note prefix_note_key js_or_truthy [OF t])
qed

theorem create_note_validates_then_stores_witness:
  "authorize (example_env ''n2'' ''2025-01-02T09:00:00.000Z'')
     (bearer ''token-a'' [] (Some retitle_body)) = Inr alice \<and>
   req_json (bearer ''token-a'' [] (Some retitle_body)) = Some retitle_body \<and>
   truthy (js_prop retitle_body ''title'') \<and> truthy (js_prop retitle_body ''deadline'') \<and>
   (\<exists>n. fst (post_notes (example_env ''n2'' ''2025-01-02T09:00:00.000Z'')
           (bearer ''token-a'' [] (Some retitle_body)) rent_store) =
          json_response (JObj [(''note'', n)]) 200 \<and>
        map_of (table (snd (post_notes (example_env ''n2'' ''2025-01-02T09:00:00.000Z'')
           (bearer ''token-a'' [] (Some retitle_body)) rent_store))) ''user:alice:note:n2'' = Some n \<and>
        js_prop n ''id'' = Some (JStr ''n2'') \<and>
        js_prop n ''createdAt'' = Some (JStr ''2025-01-02T09:00:00.000Z'') \<and>
        js_prop n ''title'' = Some (JStr ''Pay rent (late)'')) \<and>
   req_json (bearer ''token-a'' [] (Some text_only_body)) = Some text_only_body \<and>
   \<not> truthy (js_prop text_only_body ''title'') \<and>
   post_notes (example_env ''n2'' ''2025-01-02T09:00:00.000Z'')
     (bearer ''token-a'' [] (Some text_only_body)) rent_store =
     (error_response ''Title is required'' 400, rent_store)"
proof -
  let ?e = "example_env ''n2'' ''2025-01-02T09:00:00.000Z''"
  have a1: "authorize ?e (bearer ''token-a'' [] (Some retitle_body)) = Inr alice"
    and a2: "authorize ?e (bearer ''token-a'' [] (Some text_only_body)) = Inr alice"
    by (rule authorize_alice)+
  have b1: "req_json (bearer ''token-a'' [] (Some retitle_body)) = Some retitle_body"
    and b2: "req_json (bearer ''token-a'' [] (Some text_only_body)) = Some text_only_body"
    by (simp_all add: req_json_def bearer_def retitle_body_def text_only_body_def)
  have t1: "truthy (js_prop retitle_body ''title'')"
    and d1: "truthy (js_prop retitle_body ''deadline'')"
    and t2: "\<not> truthy (js_prop text_only_body ''title'')"
    and v: "js_prop retitle_body ''title'' = Some (JStr ''Pay rent (late)'')"
    by (simp_all add: js_prop_def retitle_body_def text_only_body_def)
  have u: "randomUUID ?e = ''n2''" "toISOString ?e = ''2025-01-02T09:00:00.000Z''"
    by (simp_all add: example_env_def)
  have k: "note_key alice ''n2'' = ''user:alice:note:n2''"
    by (simp add: note_key_def alice_def)
  note stored = create_note_validates_then_stores [OF a1 b1, of rent_store, unfolded u k,
      THEN conjunct2, THEN conjunct2, THEN conjunct2, rule_format, OF conjI [OF t1 d1]]
  note refused = create_note_validates_then_stores [OF a2 b2, of rent_store,
      THEN conjunct1, rule_format, OF t2]
  from stored obtain n where
    n: "fst (post_notes ?e (bearer ''token-a'' [] (Some retitle_body)) rent_store) =
          json_response (JObj [(''note'', n)]) 200"
      "map_of (table (snd (post_notes ?e (bearer ''token-a'' [] (Some retitle_body)) rent_store)))
          ''user:alice:note:n2'' = Some n"
      "js_prop n ''id'' = Some (JStr ''n2'')"
      "js_prop n ''createdAt'' = Some (JStr ''2025-01-02T09:00:00.000Z'')"
      "js_prop n ''title'' = js_prop retitle_body ''title''"
    by (elim exE conjE) (rule that)
  have "\<exists>n. fst (post_notes ?e (bearer ''token-a'' [] (Some retitle_body)) rent_store) =
          json_response (JObj [(''note'', n)]) 200 \<and>
        map_of (table (snd (post_notes ?e (bearer ''token-a'' [] (Some retitle_body)) rent_store)))
          ''user:alice:note:n2'' = Some n \<and>
        js_prop n ''id'' = Some (JStr ''n2'') \<and>
        js_prop n ''createdAt'' = Some (JStr ''2025-01-02T09:00:00.000Z'') \<and>
        js_prop n ''title'' = Some (JStr ''Pay rent (late)'')"
    using n v by (intro exI [of _ n]) simp
  with a1 b1 t1 d1 b2 t2 refused show ?thesis
    by (intro conjI)
qed

section \<open>Create, then list\<close>





section \<open>Delete\<close>

text \<open>
  C6. For an authenticated user, delete answers 404 (Note not found) and leaves the table
  as it is when no note is stored at the id under the user's namespace; otherwise it
  removes the record and confirms with status 200. After a successful delete the key has
  no record, so a second delete of the same id by the same user answers 404, not success.
\<close>

theorem delete_note_then_not_found:
  assumes "authorize e req = Inr u"
    and "authorize e' req' = Inr u" and "param_id req' = param_id req"
  shows "(\<not> truthy (map_of (table s) (note_key u (param_id req))) \<longrightarrow>
            fst (delete_notes_id e req s) = error_response ''Note not found'' 404 \<and>
            status (fst (delete_notes_id e req s)) = 404 \<and>
            table (snd (delete_notes_id e req s)) = table s) \<and>
         (truthy (map_of (table s) (note_key u (param_id req))) \<longrightarrow>
            fst (delete_notes_id e req s) =
              json_response (JObj [(''message'', JStr ''Note deleted successfully'')]) 200 \<and>
            status (fst (delete_notes_id e req s)) = 200 \<and>
            table (snd (delete_notes_id e req s)) =
              AList.delete (note_key u (param_id req)) (table s) \<and>
            map_of (table (snd (delete_notes_id e req s))) (note_key u (param_id req)) = None \<and>
            status (fst (delete_notes_id e' req' (snd (delete_notes_id e req s)))) = 404 \<and>
            table (snd (delete_notes_id e' req' (snd (delete_notes_id e req s)))) =
              table (snd (delete_notes_id e req s)))"
proof (intro conjI impI)
  assume "\<not> truthy (map_of (table s) (note_key u (param_id req)))"
  with assms(1) have eq: "delete_notes_id e req s =
      (error_response ''Note not found'' 404,
       s\<lparr>log := log s @ [KvGet (note_key u (param_id req))]\<rparr>)"
    by (rule delete_notes_id_not_found)
  show "fst (delete_notes_id e req s) = error_response ''Note not found'' 404"
    and "status (fst (delete_notes_id e req s)) = 404"
    and "table (snd (delete_notes_id e req s)) = table s"
    by (simp_all add: eq error_response_simps)
next
  assume "truthy (map_of (table s) (note_key u (param_id req)))"
  with assms(1) have eq: "delete_notes_id e req s =
      (json_response (JObj [(''message'', JStr ''Note deleted successfully'')]) 200,
       s\<lparr>table := AList.delete (note_key u (param_id req)) (table s),
         log := log s @ [KvGet (note_key u (param_id req)), KvDel (note_key u (param_id req))]\<rparr>)"
    by (rule delete_notes_id_found)
  show "fst (delete_notes_id e req s) =
      json_response (JObj [(''message'', JStr ''Note deleted successfully'')]) 200"
    and "status (fst (delete_notes_id e req s)) = 200"
    and "table (snd (delete_notes_id e req s)) = AList.delete (note_key u (param_id req)) (table s)"
    by (simp_all add: eq json_response_simps)
  show gone: "map_of (table (snd (delete_notes_id e req s))) (note_key u (param_id req)) = None"
    by (simp add: eq delete_conv')
  then have "\<not> truthy (map_of (table (snd (delete_notes_id e req s)))
      (note_key u (param_id req')))"
    by (simp add: assms(3))
  with assms(2) have eq': "delete_notes_id e' req' (snd (delete_notes_id e req s)) =
      (error_response ''Note not found'' 404,
       (snd (delete_notes_id e req s))
         \<lparr>log := log (snd (delete_notes_id e req s)) @ [KvGet (note_key u (param_id req'))]\<rparr>)"
    by (rule delete_notes_id_not_found)
  show "status (fst (delete_notes_id e' req' (snd (delete_notes_id e req s)))) = 404"
    by (simp add: eq' error_response_simps)
  show "table (snd (delete_notes_id e' req' (snd (delete_notes_id e req s)))) =
      table (snd (delete_notes_id e req s))"
    by (simp add: eq')
qed

theorem delete_note_then_not_found_witness:
  "authorize (example_env ''u1'' ''t1'') (bearer ''token-a'' ''n1'' None) = Inr alice \<and>
   truthy (map_of (table rent_store) (note_key alice ''n1'')) \<and>
   status (fst (delete_notes_id (example_env ''u1'' ''t1'') (bearer ''token-a'' ''n1'' None)
     rent_store)) = 200 \<and>
   status (fst (delete_notes_id (example_env ''u1'' ''t1'') (bearer ''token-a'' ''n1'' None)
     (snd (delete_notes_id (example_env ''u1'' ''t1'') (bearer ''token-a'' ''n1'' None)
        rent_store)))) = 404 \<and>
   \<not> truthy (map_of (table rent_store) (note_key alice ''n2'')) \<and>
   status (fst (delete_notes_id (example_env ''u1'' ''t1'') (bearer ''token-a'' ''n2'' None)
     rent_store)) = 404"
proof -
  let ?e = "example_env ''u1'' ''t1''"
  have a1: "authorize ?e (bearer ''token-a'' ''n1'' None) = Inr alice"
    and a2: "authorize ?e (bearer ''token-a'' ''n2'' None) = Inr alice"
    by (rule authorize_alice)+
  have p1: "param_id (bearer ''token-a'' ''n1'' None) = ''n1''"
    and p2: "param_id (bearer ''token-a'' ''n2'' None) = ''n2''"
    by (simp_all add: bearer_def)
  have t1: "truthy (map_of (table rent_store) (note_key alice ''n1''))"
    by (simp add: rent_store_n1 truthy_rent_note)
  have t2: "\<not> truthy (map_of (table rent_store) (note_key alice ''n2''))"
    by (simp add: rent_store_n2)
  note found = delete_note_then_not_found [OF a1 a1 refl, of rent_store, unfolded p1,
      THEN conjunct2, rule_format, OF t1]
  note missing = delete_note_then_not_found [OF a2 a2 refl, of rent_store, unfolded p2,
      THEN conjunct1, rule_format, OF t2]
  from found have "status (fst (delete_notes_id ?e (bearer ''token-a'' ''n1'' None)
      rent_store)) = 200"
    and "status (fst (delete_notes_id ?e (bearer ''token-a'' ''n1'' None)
      (snd (delete_notes_id ?e (bearer ''token-a'' ''n1'' None) rent_store)))) = 404"
    by (simp_all add: json_response_simps)
  moreover from missing have "status (fst (delete_notes_id ?e (bearer ''token-a'' ''n2'' None)
      rent_store)) = 404"
    by (simp add: error_response_simps)
  ultimately show ?thesis
    using a1 t1 t2 by (intro conjI)
qed

section \<open>Update without deadline\<close>

text \<open>
  C7. When an existing note is updated by a request whose deadline is not supplied, or is
  falsy (\<^verbatim>\<open>null\<close>, the empty string, 0, \<^verbatim>\<open>false\<close>), the note that is stored and
  returned has the deadline \<^verbatim>\<open>null\<close>, whatever deadline was stored before.
\<close>

theorem update_without_deadline_nulls_it:
  assumes "authorize e req = Inr u" and "req_json req = Some b"
    and "map_of (table s) (note_key u (param_id req)) = Some ex" and "truthy_json ex"
    and "\<not> truthy (js_prop b ''deadline'')"
  shows "\<exists>n. fst (put_notes_id e req s) = json_response (JObj [(''note'', n)]) 200 \<and>
              map_of (table (snd (put_notes_id e req s))) (note_key u (param_id req)) = Some n \<and>
              js_prop n ''deadline'' = Some JNull"
proof -
  let ?n = "to_json (updated_note ex (js_prop b ''title'') (js_prop b ''text'')
                       (js_prop b ''tags'') (js_prop b ''deadline''))"
  note eq = put_notes_id_found [OF assms(1-4)]
  have "js_or (js_prop b ''deadline'') JNull = JNull"
    using assms(5) by (cases "js_prop b ''deadline''") (simp_all add: js_or_def)
  then have "js_prop ?n ''deadline'' = Some JNull"
    by (simp add: js_prop_updated_note)
  then show ?thesis
    by (intro exI [of _ ?n]) (simp add: eq update_conv')
qed

theorem update_without_deadline_nulls_it_witness:
  "authorize (example_env ''u1'' ''t1'') (bearer ''token-a'' ''n1'' (Some text_only_body)) = Inr alice \<and>
   req_json (bearer ''token-a'' ''n1'' (Some text_only_body)) = Some text_only_body \<and>
   map_of (table rent_store) (note_key alice ''n1'') = Some rent_note \<and>
   truthy_json rent_note \<and>
   \<not> truthy (js_prop text_only_body ''deadline'') \<and>
   js_prop rent_note ''deadline'' = Some (JStr ''2025-01-01T23:59:59.999Z'') \<and>
   (\<exists>n. fst (put_notes_id (example_env ''u1'' ''t1'') (bearer ''token-a'' ''n1'' (Some text_only_body))
           rent_store) = json_response (JObj [(''note'', n)]) 200 \<and>
        map_of (table (snd (put_notes_id (example_env ''u1'' ''t1'')
           (bearer ''token-a'' ''n1'' (Some text_only_body)) rent_store))) (note_key alice ''n1'') =
          Some n \<and>
        js_prop n ''deadline'' = Some JNull)"
proof -
  let ?e = "example_env ''u1'' ''t1''"
  have a: "authorize ?e (bearer ''token-a'' ''n1'' (Some text_only_body)) = Inr alice"
    by (rule authorize_alice)
  have b: "req_json (bearer ''token-a'' ''n1'' (Some text_only_body)) = Some text_only_body"
    by (simp add: req_json_def bearer_def text_only_body_def)
  have p: "param_id (bearer ''token-a'' ''n1'' (Some text_only_body)) = ''n1''"
    by (simp add: bearer_def)
  have d: "\<not> truthy (js_prop text_only_body ''deadline'')"
    by (simp add: js_prop_def text_only_body_def)
  have old: "js_prop rent_note ''deadline'' = Some (JStr ''2025-01-01T23:59:59.999Z'')"
    by (simp add: js_prop_def rent_note_def)
  have ex: "map_of (table rent_store)
      (note_key alice (param_id (bearer ''token-a'' ''n1'' (Some text_only_body)))) = Some rent_note"
    by (simp add: p rent_store_n1)
  note update_without_deadline_nulls_it [OF a b ex truthy_rent_note d, unfolded p]
  with a b rent_store_n1 truthy_rent_note d old show ?thesis
    by (intro conjI)
qed

section \<open>List\<close>

text \<open>
  C8. For an authenticated user, list answers 200 with exactly the values stored under the
  keys of that user's namespace that pass the filter: objects having both an id and a
  title (values for which \<^verbatim>\<open>note && typeof note === 'object' && note.id && note.title\<close>
  holds), one per key. An entry that does not pass (a missing or empty id or title, a
  value that is no object) is left out; it changes neither the status nor the store.
\<close>

theorem list_notes_exactly_valid:
  assumes "authorize e req = Inr u"
  shows "\<exists>ns ks. fst (get_notes e req s) = json_response (JObj [(''notes'', JArr ns)]) 200 \<and>
           status (fst (get_notes e req s)) = 200 \<and>
           table (snd (get_notes e req s)) = table s \<and>
           distinct ks \<and>
           set ks = {k. prefix (note_prefix u) k \<and>
                        (\<exists>v. map_of (table s) k = Some v \<and> valid_note v)} \<and>
           map (map_of (table s)) ks = map Some ns \<and>
           (\<forall>v. v \<in> set ns \<longleftrightarrow>
              (\<exists>k. prefix (note_prefix u) k \<and> map_of (table s) k = Some v \<and>
                   truthy_json v \<and> typeof_object v \<and>
                   truthy (js_prop v ''id'') \<and> truthy (js_prop v ''title'')))"
proof -
  let ?xs = "filter (\<lambda>kv. valid_note (snd kv)) (under_prefix (note_prefix u) (table s))"
  let ?ns = "map snd ?xs" and ?ks = "map fst ?xs"
  have ns: "filter valid_note (map snd (under_prefix (note_prefix u) (table s))) = ?ns"
    by (simp add: filter_map comp_def)
  have entry: "(k, v) \<in> set ?xs \<longleftrightarrow>
      prefix (note_prefix u) k \<and> map_of (table s) k = Some v \<and> valid_note v" for k v
    by (auto simp: under_prefix_entry_iff)
  have "fst (get_notes e req s) = json_response (JObj [(''notes'', JArr ?ns)]) 200"
    and "status (fst (get_notes e req s)) = 200"
    and "table (snd (get_notes e req s)) = table s"
    by (simp_all add: get_notes_authorized [OF assms] ns json_response_simps)
  moreover have "distinct ?ks"
    by (rule distinct_map_filter) (rule distinct_under_prefix)
  moreover have "set ?ks = {k. prefix (note_prefix u) k \<and>
      (\<exists>v. map_of (table s) k = Some v \<and> valid_note v)}"
  proof (intro set_eqI iffI)
    fix k
    assume "k \<in> set ?ks"
    then obtain v where "(k, v) \<in> set ?xs" by auto
    then show "k \<in> {k. prefix (note_prefix u) k \<and>
        (\<exists>v. map_of (table s) k = Some v \<and> valid_note v)}"
      unfolding entry by blast
  next
    fix k
    assume "k \<in> {k. prefix (note_prefix u) k \<and>
        (\<exists>v. map_of (table s) k = Some v \<and> valid_note v)}"
    then obtain v where "(k, v) \<in> set ?xs"
      unfolding entry by blast
    then show "k \<in> set ?ks" by force
  qed
  moreover have "map (map_of (table s)) ?ks = map Some ?ns"
  proof -
    have "map_of (table s) (fst kv) = Some (snd kv)" if "kv \<in> set ?xs" for kv
      using that entry [of "fst kv" "snd kv"] by simp
    then show ?thesis by (simp add: comp_def)
  qed
  moreover have "\<forall>v. v \<in> set ?ns \<longleftrightarrow>
      (\<exists>k. prefix (note_prefix u) k \<and> map_of (table s) k = Some v \<and>
           truthy_json v \<and> typeof_object v \<and>
           truthy (js_prop v ''id'') \<and> truthy (js_prop v ''title''))"
  proof (intro allI iffI)
    fix v
    assume "v \<in> set ?ns"
    then obtain k where "(k, v) \<in> set ?xs" by auto
    then have "prefix (note_prefix u) k \<and> map_of (table s) k = Some v \<and> valid_note v"
      by (simp only: entry)
    then show "\<exists>k. prefix (note_prefix u) k \<and> map_of (table s) k = Some v \<and>
        truthy_json v \<and> typeof_object v \<and> truthy (js_prop v ''id'') \<and> truthy (js_prop v ''title'')"
      by (auto simp: valid_note_def)
  next
    fix v
    assume "\<exists>k. prefix (note_prefix u) k \<and> map_of (table s) k = Some v \<and>
        truthy_json v \<and> typeof_object v \<and> truthy (js_prop v ''id'') \<and> truthy (js_prop v ''title'')"
    then obtain k where "prefix (note_prefix u) k \<and> map_of (table s) k = Some v \<and> valid_note v"
      by (auto simp: valid_note_def)
    then have "(k, v) \<in> set ?xs"
      by (simp only: entry)
    then show "v \<in> set ?ns" by force
  qed
  ultimately show ?thesis by blast
qed

theorem list_notes_exactly_valid_witness:
  "authorize (example_env ''u1'' ''t1'') (bearer ''token-a'' [] None) = Inr alice \<and>
   (\<exists>ns ks. fst (get_notes (example_env ''u1'' ''t1'') (bearer ''token-a'' [] None) mixed_store) =
              json_response (JObj [(''notes'', JArr ns)]) 200 \<and>
            distinct ks \<and>
            set ks = {k. prefix (note_prefix alice) k \<and>
                         (\<exists>v. map_of (table mixed_store) k = Some v \<and> valid_note v)} \<and>
            map (map_of (table mixed_store)) ks = map Some ns) \<and>
   fst (get_notes (example_env ''u1'' ''t1'') (bearer ''token-a'' [] None) mixed_store) =
     json_response (JObj [(''notes'', JArr [rent_note])]) 200 \<and>
   map_of (table mixed_store) ''user:alice:note:n3'' = Some untitled_note \<and>
   \<not> valid_note untitled_note"
proof -
  let ?e = "example_env ''u1'' ''t1''"
  have a: "authorize ?e (bearer ''token-a'' [] None) = Inr alice"
    by (rule authorize_alice)
  from list_notes_exactly_valid [OF a, of mixed_store]
  have "\<exists>ns ks. fst (get_notes ?e (bearer ''token-a'' [] None) mixed_store) =
              json_response (JObj [(''notes'', JArr ns)]) 200 \<and>
            distinct ks \<and>
            set ks = {k. prefix (note_prefix alice) k \<and>
                         (\<exists>v. map_of (table mixed_store) k = Some v \<and> valid_note v)} \<and>
            map (map_of (table mixed_store)) ks = map Some ns"
    by (elim exE conjE) (intro exI conjI)
  moreover have "\<not> valid_note untitled_note"
    by (simp add: valid_note_def untitled_note_def js_prop_def)
  moreover have "valid_note milk_note"
    by (simp add: valid_note_def milk_note_def js_prop_def)
  then have "fst (get_notes ?e (bearer ''token-a'' [] None) mixed_store) =
      json_response (JObj [(''notes'', JArr [rent_note])]) 200"
    using \<open>\<not> valid_note untitled_note\<close>
    by (simp add: get_notes_authorized [OF a] under_prefix_def note_prefix_def alice_def
        mixed_store_def valid_rent_note valid_note_def [of "JObj [(''userId'', JStr ''alice'')]"]
        js_prop_def)
  moreover have "map_of (table mixed_store) ''user:alice:note:n3'' = Some untitled_note"
    by (simp add: mixed_store_def)
  ultimately show ?thesis
    using a by (intro conjI)
qed

section \<open>Short passwords\<close>

text \<open>
  C9. Change password, for an authenticated user, answers 400 with the message that the
  password must be at least 6 characters, and leaves the store as it is, for every new
  password that is a string of fewer than 6 characters (code units), whatever the Auth
  Provider would have answered to the change. On the client, a submit of the register form
  with a password of fewer than 6 characters ends in one of the form's error messages
  without any call leaving the browser: neither the signup request nor a sign-in.
\<close>

theorem short_password_rejected:
  "(authorize e req = Inr u \<and> req_json req = Some b \<and>
    js_prop b ''newPassword'' = Some (JStr p) \<and> length p < 6 \<longrightarrow>
      post_profile_password e req s =
        (error_response ''Password must be at least 6 characters'' 400, s) \<and>
      status (fst (post_profile_password e req s)) = 400) \<and>
   (\<not> isLogin f \<and> length (password f) < 6 \<longrightarrow>
      calls (handleSubmit c f) = [] \<and> onLogin (handleSubmit c f) = None \<and>
      error_shown (handleSubmit c f) \<in>
        {''Please fill in all fields'', ''Passwords do not match'',
         ''Password must be at least 6 characters''})"
proof (intro conjI impI)
  assume h: "authorize e req = Inr u \<and> req_json req = Some b \<and>
      js_prop b ''newPassword'' = Some (JStr p) \<and> length p < 6"
  then show eq: "post_profile_password e req s =
      (error_response ''Password must be at least 6 characters'' 400, s)"
    by (elim conjE) (rule post_profile_password_short; assumption)
  show "status (fst (post_profile_password e req s)) = 400"
    by (simp add: eq error_response_simps)
next
  assume "\<not> isLogin f \<and> length (password f) < 6"
  then have "calls (handleSubmit c f) = [] \<and> onLogin (handleSubmit c f) = None \<and>
      error_shown (handleSubmit c f) \<in>
        {''Please fill in all fields'', ''Passwords do not match'',
         ''Password must be at least 6 characters''}"
    by (elim conjE) (rule register_short_password; assumption)
  then show "calls (handleSubmit c f) = []" and "onLogin (handleSubmit c f) = None"
    and "error_shown (handleSubmit c f) \<in>
        {''Please fill in all fields'', ''Passwords do not match'',
         ''Password must be at least 6 characters''}"
    by simp_all
qed

theorem short_password_rejected_witness:
  "authorize (example_env ''u1'' ''t1'') (bearer ''token-a'' [] (Some (password_body ''abc12''))) =
     Inr alice \<and>
   req_json (bearer ''token-a'' [] (Some (password_body ''abc12''))) = Some (password_body ''abc12'') \<and>
   js_prop (password_body ''abc12'') ''newPassword'' = Some (JStr ''abc12'') \<and>
   length ''abc12'' < 6 \<and>
   status (fst (post_profile_password (example_env ''u1'' ''t1'')
     (bearer ''token-a'' [] (Some (password_body ''abc12''))) rent_store)) = 400 \<and>
   status (fst (post_profile_password (example_env ''u1'' ''t1'')
     (bearer ''token-a'' [] (Some (password_body ''abc123''))) rent_store)) = 200 \<and>
   \<not> isLogin (register_form ''abc12'') \<and> length (password (register_form ''abc12'')) < 6 \<and>
   calls (handleSubmit example_client (register_form ''abc12'')) = [] \<and>
   error_shown (handleSubmit example_client (register_form ''abc12'')) =
     ''Password must be at least 6 characters'' \<and>
   calls (handleSubmit example_client (register_form ''abc123'')) =
     [SignUpCall ''ally@example.org'' ''abc123'' ''ally'', SignInCall ''ally@example.org'' ''abc123'']"
proof -
  let ?e = "example_env ''u1'' ''t1''"
  have a: "authorize ?e (bearer ''token-a'' [] (Some (password_body ''abc12''))) = Inr alice"
    and a': "authorize ?e (bearer ''token-a'' [] (Some (password_body ''abc123''))) = Inr alice"
    by (rule authorize_alice)+
  have b: "req_json (bearer ''token-a'' [] (Some (password_body ''abc12''))) =
      Some (password_body ''abc12'')"
    and b': "req_json (bearer ''token-a'' [] (Some (password_body ''abc123''))) =
      Some (password_body ''abc123'')"
    by (simp_all add: req_json_def bearer_def password_body_def)
  have p: "js_prop (password_body ''abc12'') ''newPassword'' = Some (JStr ''abc12'')"
    and p': "js_prop (password_body ''abc123'') ''newPassword'' = Some (JStr ''abc123'')"
    by (simp_all add: js_prop_def password_body_def)
  have l: "length ''abc12'' < 6" and l': "6 \<le> length ''abc123''"
    by simp_all
  have f: "\<not> isLogin (register_form ''abc12'')" "length (password (register_form ''abc12'')) < 6"
    by (simp_all add: register_form_def)
  have t: "trim ''ally@example.org'' = ''ally@example.org''" "trim ''ally'' = ''ally''"
    "trim ''abc12'' = ''abc12''" "trim ''abc123'' = ''abc123''"
    by (simp_all add: trim_def js_space_def)
  note server = short_password_rejected [of ?e "bearer ''token-a'' [] (Some (password_body ''abc12''))"
      alice "password_body ''abc12''" "''abc12''" rent_store, THEN conjunct1, rule_format,
      OF conjI [OF a conjI [OF b conjI [OF p l]]], THEN conjunct2]
  note client = short_password_rejected [of _ _ _ _ _ _ "register_form ''abc12''" example_client,
      THEN conjunct2, rule_format, OF conjI [OF f], THEN conjunct1]
  have accepted: "status (fst (post_profile_password ?e
      (bearer ''token-a'' [] (Some (password_body ''abc123''))) rent_store)) = 200"
    unfolding post_profile_password_long [OF a' b' p' l']
    by (simp add: example_env_def json_response_simps)
  have shown: "error_shown (handleSubmit example_client (register_form ''abc12'')) =
      ''Password must be at least 6 characters''"
    by (simp add: handleSubmit_def register_form_def rejected_def t)
  have sent: "calls (handleSubmit example_client (register_form ''abc123'')) =
      [SignUpCall ''ally@example.org'' ''abc123'' ''ally'', SignInCall ''ally@example.org'' ''abc123'']"
    by (simp add: handleSubmit_def register_form_def example_client_def t)
  from a b p l server accepted f client shown sent show ?thesis
    by (intro conjI)
qed

section \<open>Update without title\<close>

text \<open>
  C10. An update of an existing note writes the request's title and text over the stored
  ones whatever they are: the stored title and text are those of the request, and a
  request without title leaves the stored note without title. Such a note does not pass
  the filter of the list operation, so it is in no list-notes result, of any request on any
  later state of the store, although the key still holds it.
\<close>

theorem update_without_title_hides_note:
  assumes "authorize e req = Inr u" and "req_json req = Some b"
    and "map_of (table s) (note_key u (param_id req)) = Some ex" and "truthy_json ex"
  shows "\<exists>n. map_of (table (snd (put_notes_id e req s))) (note_key u (param_id req)) = Some n \<and>
              js_prop n ''title'' = js_prop b ''title'' \<and>
              js_prop n ''text'' = js_prop b ''text'' \<and>
              (js_prop b ''title'' = None \<longrightarrow>
                 js_prop n ''title'' = None \<and> \<not> valid_note n \<and>
                 (\<forall>e' req' s' ns.
                    js_prop (payload (fst (get_notes e' req' s'))) ''notes'' = Some (JArr ns) \<longrightarrow>
                    n \<notin> set ns))"
proof -
  let ?n = "to_json (updated_note ex (js_prop b ''title'') (js_prop b ''text'')
                       (js_prop b ''tags'') (js_prop b ''deadline''))"
  note eq = put_notes_id_found [OF assms]
  have stored: "map_of (table (snd (put_notes_id e req s))) (note_key u (param_id req)) = Some ?n"
    by (simp add: eq update_conv')
  have fields: "js_prop ?n ''title'' = js_prop b ''title''" "js_prop ?n ''text'' = js_prop b ''text''"
    by (simp_all add: js_prop_updated_note)
  have hidden: "\<not> valid_note ?n \<and>
      (\<forall>e' req' s' ns.
         js_prop (payload (fst (get_notes e' req' s'))) ''notes'' = Some (JArr ns) \<longrightarrow> ?n \<notin> set ns)"
    if "js_prop b ''title'' = None"
  proof -
    from that fields have "\<not> valid_note ?n"
      by (simp add: valid_note_def)
    then show ?thesis
      using get_notes_listed_valid by blast
  qed
  from stored fields hidden show ?thesis
    by (intro exI [of _ ?n] conjI impI) simp_all
qed

theorem update_without_title_hides_note_witness:
  "authorize (example_env ''u1'' ''t1'') (bearer ''token-a'' ''n1'' (Some text_only_body)) = Inr alice \<and>
   req_json (bearer ''token-a'' ''n1'' (Some text_only_body)) = Some text_only_body \<and>
   map_of (table rent_store) (note_key alice ''n1'') = Some rent_note \<and>
   truthy_json rent_note \<and>
   js_prop text_only_body ''title'' = None \<and>
   payload (fst (get_notes (example_env ''u1'' ''t1'') (bearer ''token-a'' [] None) rent_store)) =
     JObj [(''notes'', JArr [rent_note])] \<and>
   (\<exists>n. map_of (table (snd (put_notes_id (example_env ''u1'' ''t1'')
           (bearer ''token-a'' ''n1'' (Some text_only_body)) rent_store))) (note_key alice ''n1'') =
          Some n \<and>
        js_prop n ''title'' = None \<and>
        js_prop n ''text'' = Some (JStr ''paid'') \<and>
        (\<forall>ns. js_prop (payload (fst (get_notes (example_env ''u1'' ''t1'') (bearer ''token-a'' [] None)
                 (snd (put_notes_id (example_env ''u1'' ''t1'')
                    (bearer ''token-a'' ''n1'' (Some text_only_body)) rent_store))))) ''notes'' =
               Some (JArr ns) \<longrightarrow> n \<notin> set ns))"
proof -
  let ?e = "example_env ''u1'' ''t1''"
  let ?req = "bearer ''token-a'' ''n1'' (Some text_only_body)"
  have a: "authorize ?e ?req = Inr alice"
    by (rule authorize_alice)
  have b: "req_json ?req = Some text_only_body"
    by (simp add: req_json_def bearer_def text_only_body_def)
  have p: "param_id ?req = ''n1''"
    by (simp add: bearer_def)
  have t: "js_prop text_only_body ''title'' = None"
    and x: "js_prop text_only_body ''text'' = Some (JStr ''paid'')"
    by (simp_all add: js_prop_def text_only_body_def)
  have ex: "map_of (table rent_store) (note_key alice (param_id ?req)) = Some rent_note"
    by (simp add: p rent_store_n1)
  from update_without_title_hides_note [OF a b ex truthy_rent_note, unfolded p]
  obtain n where n: "map_of (table (snd (put_notes_id ?e ?req rent_store))) (note_key alice ''n1'') =
        Some n"
      "js_prop n ''title'' = js_prop text_only_body ''title''"
      "js_prop n ''text'' = js_prop text_only_body ''text''"
      "js_prop text_only_body ''title'' = None \<longrightarrow>
         js_prop n ''title'' = None \<and> \<not> valid_note n \<and>
         (\<forall>e' req' s' ns.
            js_prop (payload (fst (get_notes e' req' s'))) ''notes'' = Some (JArr ns) \<longrightarrow>
            n \<notin> set ns)"
    by (elim exE conjE) (rule that)
  from n(4) t have "\<forall>ns. js_prop (payload (fst (get_notes ?e (bearer ''token-a'' [] None)
      (snd (put_notes_id ?e ?req rent_store))))) ''notes'' = Some (JArr ns) \<longrightarrow> n \<notin> set ns"
    by blast
  with n(1-3) t x have "\<exists>n. map_of (table (snd (put_notes_id ?e ?req rent_store)))
        (note_key alice ''n1'') = Some n \<and>
      js_prop n ''title'' = None \<and> js_prop n ''text'' = Some (JStr ''paid'') \<and>
      (\<forall>ns. js_prop (payload (fst (get_notes ?e (bearer ''token-a'' [] None)
          (snd (put_notes_id ?e ?req rent_store))))) ''notes'' = Some (JArr ns) \<longrightarrow> n \<notin> set ns)"
    by (intro exI [of _ n]) simp
  with a b rent_store_n1 truthy_rent_note t alice_lists_rent_store show ?thesis
    by (intro conjI)
qed

end
